theory Spec2Isabelle
  imports Main
begin

section \<open>Python strings\<close>

text \<open>
  A Python \<open>str\<close> is a sequence of Unicode code points. A code point is a natural number
  and a string is a list of them; \<open>ascii\<close> turns a literal of the theory into such a string.
\<close>

type_synonym pystr = "nat list"

definition ascii :: "string \<Rightarrow> pystr" where
  "ascii s = map of_char s"

text \<open>
  The white space of \<open>str.strip()\<close>, \<open>str.isspace()\<close> and of \<open>\s\<close> in a \<open>str\<close> pattern of
  \<open>re\<close>: U+0009..U+000D, U+001C..U+0020, U+0085, U+00A0, U+1680, U+2000..U+200A, U+2028,
  U+2029, U+202F, U+205F, U+3000.
\<close>

definition py_isspace :: "nat \<Rightarrow> bool" where
  "py_isspace c \<longleftrightarrow>
     (9 \<le> c \<and> c \<le> 13) \<or> (28 \<le> c \<and> c \<le> 32) \<or> c = 133 \<or> c = 160 \<or> c = 5760 \<or>
     (8192 \<le> c \<and> c \<le> 8202) \<or> c = 8232 \<or> c = 8233 \<or> c = 8239 \<or> c = 8287 \<or> c = 12288"

definition py_lstrip :: "pystr \<Rightarrow> pystr" where
  "py_lstrip s = dropWhile py_isspace s"

definition py_rstrip :: "pystr \<Rightarrow> pystr" where
  "py_rstrip s = rev (dropWhile py_isspace (rev s))"

definition py_strip :: "pystr \<Rightarrow> pystr" where
  "py_strip s = py_rstrip (py_lstrip s)"

text \<open>\<open>s.startswith(p)\<close>.\<close>

definition startswith :: "pystr \<Rightarrow> pystr \<Rightarrow> bool" where
  "startswith s p \<longleftrightarrow> take (length p) s = p"

text \<open>\<open>s.split(sep)\<close> for a separator of one character: never the empty list.\<close>

fun py_split :: "nat \<Rightarrow> pystr \<Rightarrow> pystr list" where
  "py_split sep [] = [[]]"
| "py_split sep (c # cs) =
     (if c = sep then [] # py_split sep cs
      else (case py_split sep cs of [] \<Rightarrow> [[c]] | p # ps \<Rightarrow> (c # p) # ps))"

text \<open>\<open>sep.join(parts)\<close> for a separator of one character.\<close>

fun py_join :: "nat \<Rightarrow> pystr list \<Rightarrow> pystr" where
  "py_join sep [] = []"
| "py_join sep [p] = p"
| "py_join sep (p # q # ps) = p @ sep # py_join sep (q # ps)"

text \<open>\<open>k, v = s.split(sep, 1)\<close> for a string that contains the separator.\<close>

definition split_once :: "nat \<Rightarrow> pystr \<Rightarrow> pystr \<times> pystr" where
  "split_once sep s = (takeWhile (\<lambda>c. c \<noteq> sep) s, drop 1 (dropWhile (\<lambda>c. c \<noteq> sep) s))"

text \<open>
  \<open>str.upper()\<close> maps each code point on its own. The parser compares upper-cased text with
  ASCII literals only, so the table below holds the ASCII letters and every other code point
  whose upper-case form contains an ASCII character (sharp s, dotless i, long s, the
  ligatures U+FB00..U+FB06 and six letters that decompose); any other code point has an
  upper-case form without ASCII characters and is left in place here.
\<close>

definition upper_char :: "nat \<Rightarrow> pystr" where
  "upper_char c =
     (if 97 \<le> c \<and> c \<le> 122 then [c - 32]
      else if c = 223 then [83, 83]
      else if c = 305 then [73]
      else if c = 329 then [700, 78]
      else if c = 383 then [83]
      else if c = 496 then [74, 780]
      else if c = 7830 then [72, 817]
      else if c = 7831 then [84, 776]
      else if c = 7832 then [87, 778]
      else if c = 7833 then [89, 778]
      else if c = 7834 then [65, 702]
      else if c = 64256 then [70, 70]
      else if c = 64257 then [70, 73]
      else if c = 64258 then [70, 76]
      else if c = 64259 then [70, 70, 73]
      else if c = 64260 then [70, 70, 76]
      else if c = 64261 \<or> c = 64262 then [83, 84]
      else [c])"

definition py_upper :: "pystr \<Rightarrow> pystr" where
  "py_upper s = concat (map upper_char s)"

text \<open>
  \<open>str.lower()\<close>, with the tables of Unicode 14.0. An entry \<open>(lo, hi, step, target)\<close> of
  \<open>lower_table\<close> sends the code points \<open>lo\<close>, \<open>lo + step\<close>, ... up to \<open>hi\<close> to \<open>target\<close>,
  \<open>target + step\<close>, ...; the table holds every code point from 128 on that has a lower-case
  form of one code point other than itself. U+0130 has the form \<open>i\<close> with a combining dot.
  A code point outside the table is its own lower-case form.
\<close>

definition lower_table :: "(nat \<times> nat \<times> nat \<times> nat) list" where
  "lower_table =
     [(192, 214, 1, 224), (216, 222, 1, 248), (256, 302, 2, 257), (306, 310, 2, 307),
      (313, 327, 2, 314), (330, 374, 2, 331), (376, 376, 1, 255), (377, 381, 2, 378),
      (385, 385, 1, 595), (386, 388, 2, 387), (390, 390, 1, 596), (391, 391, 1, 392),
      (393, 394, 1, 598), (395, 395, 1, 396), (398, 398, 1, 477), (399, 399, 1, 601),
      (400, 400, 1, 603), (401, 401, 1, 402), (403, 403, 1, 608), (404, 404, 1, 611),
      (406, 406, 1, 617), (407, 407, 1, 616), (408, 408, 1, 409), (412, 412, 1, 623),
      (413, 413, 1, 626), (415, 415, 1, 629), (416, 420, 2, 417), (422, 422, 1, 640),
      (423, 423, 1, 424), (425, 425, 1, 643), (428, 428, 1, 429), (430, 430, 1, 648),
      (431, 431, 1, 432), (433, 434, 1, 650), (435, 437, 2, 436), (439, 439, 1, 658),
      (440, 440, 1, 441), (444, 444, 1, 445), (452, 452, 1, 454), (453, 453, 1, 454),
      (455, 455, 1, 457), (456, 456, 1, 457), (458, 458, 1, 460), (459, 475, 2, 460),
      (478, 494, 2, 479), (497, 497, 1, 499), (498, 500, 2, 499), (502, 502, 1, 405),
      (503, 503, 1, 447), (504, 542, 2, 505), (544, 544, 1, 414), (546, 562, 2, 547),
      (570, 570, 1, 11365), (571, 571, 1, 572), (573, 573, 1, 410), (574, 574, 1, 11366),
      (577, 577, 1, 578), (579, 579, 1, 384), (580, 580, 1, 649), (581, 581, 1, 652),
      (582, 590, 2, 583), (880, 882, 2, 881), (886, 886, 1, 887), (895, 895, 1, 1011),
      (902, 902, 1, 940), (904, 906, 1, 941), (908, 908, 1, 972), (910, 911, 1, 973),
      (913, 929, 1, 945), (931, 939, 1, 963), (975, 975, 1, 983), (984, 1006, 2, 985),
      (1012, 1012, 1, 952), (1015, 1015, 1, 1016), (1017, 1017, 1, 1010), (1018, 1018, 1, 1019),
      (1021, 1023, 1, 891), (1024, 1039, 1, 1104), (1040, 1071, 1, 1072), (1120, 1152, 2, 1121),
      (1162, 1214, 2, 1163), (1216, 1216, 1, 1231), (1217, 1229, 2, 1218),
      (1232, 1326, 2, 1233), (1329, 1366, 1, 1377), (4256, 4293, 1, 11520),
      (4295, 4295, 1, 11559), (4301, 4301, 1, 11565), (5024, 5103, 1, 43888),
      (5104, 5109, 1, 5112), (7312, 7354, 1, 4304), (7357, 7359, 1, 4349),
      (7680, 7828, 2, 7681), (7838, 7838, 1, 223), (7840, 7934, 2, 7841), (7944, 7951, 1, 7936),
      (7960, 7965, 1, 7952), (7976, 7983, 1, 7968), (7992, 7999, 1, 7984),
      (8008, 8013, 1, 8000), (8025, 8031, 2, 8017), (8040, 8047, 1, 8032),
      (8072, 8079, 1, 8064), (8088, 8095, 1, 8080), (8104, 8111, 1, 8096),
      (8120, 8121, 1, 8112), (8122, 8123, 1, 8048), (8124, 8124, 1, 8115),
      (8136, 8139, 1, 8050), (8140, 8140, 1, 8131), (8152, 8153, 1, 8144),
      (8154, 8155, 1, 8054), (8168, 8169, 1, 8160), (8170, 8171, 1, 8058),
      (8172, 8172, 1, 8165), (8184, 8185, 1, 8056), (8186, 8187, 1, 8060),
      (8188, 8188, 1, 8179), (8486, 8486, 1, 969), (8490, 8490, 1, 107), (8491, 8491, 1, 229),
      (8498, 8498, 1, 8526), (8544, 8559, 1, 8560), (8579, 8579, 1, 8580),
      (9398, 9423, 1, 9424), (11264, 11311, 1, 11312), (11360, 11360, 1, 11361),
      (11362, 11362, 1, 619), (11363, 11363, 1, 7549), (11364, 11364, 1, 637),
      (11367, 11371, 2, 11368), (11373, 11373, 1, 593), (11374, 11374, 1, 625),
      (11375, 11375, 1, 592), (11376, 11376, 1, 594), (11378, 11378, 1, 11379),
      (11381, 11381, 1, 11382), (11390, 11391, 1, 575), (11392, 11490, 2, 11393),
      (11499, 11501, 2, 11500), (11506, 11506, 1, 11507), (42560, 42604, 2, 42561),
      (42624, 42650, 2, 42625), (42786, 42798, 2, 42787), (42802, 42862, 2, 42803),
      (42873, 42875, 2, 42874), (42877, 42877, 1, 7545), (42878, 42886, 2, 42879),
      (42891, 42891, 1, 42892), (42893, 42893, 1, 613), (42896, 42898, 2, 42897),
      (42902, 42920, 2, 42903), (42922, 42922, 1, 614), (42923, 42923, 1, 604),
      (42924, 42924, 1, 609), (42925, 42925, 1, 620), (42926, 42926, 1, 618),
      (42928, 42928, 1, 670), (42929, 42929, 1, 647), (42930, 42930, 1, 669),
      (42931, 42931, 1, 43859), (42932, 42946, 2, 42933), (42948, 42948, 1, 42900),
      (42949, 42949, 1, 642), (42950, 42950, 1, 7566), (42951, 42953, 2, 42952),
      (42960, 42960, 1, 42961), (42966, 42968, 2, 42967), (42997, 42997, 1, 42998),
      (65313, 65338, 1, 65345), (66560, 66599, 1, 66600), (66736, 66771, 1, 66776),
      (66928, 66938, 1, 66967), (66940, 66954, 1, 66979), (66956, 66962, 1, 66995),
      (66964, 66965, 1, 67003), (68736, 68786, 1, 68800), (71840, 71871, 1, 71872),
      (93760, 93791, 1, 93792), (125184, 125217, 1, 125218)]"

definition lower_char :: "nat \<Rightarrow> pystr" where
  "lower_char c =
     (if c < 128 then (if 65 \<le> c \<and> c \<le> 90 then [c + 32] else [c])
      else if c = 304 then [105, 775]
      else (case find (\<lambda>(lo, hi, step, target). lo \<le> c \<and> c \<le> hi \<and> (c - lo) mod step = 0)
                   lower_table of
              None \<Rightarrow> [c]
            | Some (lo, hi, step, target) \<Rightarrow> [target + (c - lo)]))"

text \<open>
  The capital sigma U+03A3 is the one code point whose lower-case form depends on its
  place: it is the final sigma U+03C2 when a cased code point comes before it and none
  comes after it, case-ignorable code points being skipped on both sides, and U+03C3
  otherwise. \<open>ignorable_ranges\<close> are the case-ignorable code points; \<open>cased_ranges\<close> are
  the cased code points that are not case-ignorable, the only ones the rule asks about.
\<close>

definition ignorable_ranges :: "(nat \<times> nat) list" where
  "ignorable_ranges =
     [(39, 39), (46, 46), (58, 58), (94, 94), (96, 96), (168, 168), (173, 173), (175, 175),
      (180, 180), (183, 184), (688, 879), (884, 885), (890, 890), (900, 901), (903, 903),
      (1155, 1161), (1369, 1369), (1375, 1375), (1425, 1469), (1471, 1471), (1473, 1474),
      (1476, 1477), (1479, 1479), (1524, 1524), (1536, 1541), (1552, 1562), (1564, 1564),
      (1600, 1600), (1611, 1631), (1648, 1648), (1750, 1757), (1759, 1768), (1770, 1773),
      (1807, 1807), (1809, 1809), (1840, 1866), (1958, 1968), (2027, 2037), (2042, 2042),
      (2045, 2045), (2070, 2093), (2137, 2139), (2184, 2184), (2192, 2193), (2200, 2207),
      (2249, 2306), (2362, 2362), (2364, 2364), (2369, 2376), (2381, 2381), (2385, 2391),
      (2402, 2403), (2417, 2417), (2433, 2433), (2492, 2492), (2497, 2500), (2509, 2509),
      (2530, 2531), (2558, 2558), (2561, 2562), (2620, 2620), (2625, 2626), (2631, 2632),
      (2635, 2637), (2641, 2641), (2672, 2673), (2677, 2677), (2689, 2690), (2748, 2748),
      (2753, 2757), (2759, 2760), (2765, 2765), (2786, 2787), (2810, 2815), (2817, 2817),
      (2876, 2876), (2879, 2879), (2881, 2884), (2893, 2893), (2901, 2902), (2914, 2915),
      (2946, 2946), (3008, 3008), (3021, 3021), (3072, 3072), (3076, 3076), (3132, 3132),
      (3134, 3136), (3142, 3144), (3146, 3149), (3157, 3158), (3170, 3171), (3201, 3201),
      (3260, 3260), (3263, 3263), (3270, 3270), (3276, 3277), (3298, 3299), (3328, 3329),
      (3387, 3388), (3393, 3396), (3405, 3405), (3426, 3427), (3457, 3457), (3530, 3530),
      (3538, 3540), (3542, 3542), (3633, 3633), (3636, 3642), (3654, 3662), (3761, 3761),
      (3764, 3772), (3782, 3782), (3784, 3789), (3864, 3865), (3893, 3893), (3895, 3895),
      (3897, 3897), (3953, 3966), (3968, 3972), (3974, 3975), (3981, 3991), (3993, 4028),
      (4038, 4038), (4141, 4144), (4146, 4151), (4153, 4154), (4157, 4158), (4184, 4185),
      (4190, 4192), (4209, 4212), (4226, 4226), (4229, 4230), (4237, 4237), (4253, 4253),
      (4348, 4348), (4957, 4959), (5906, 5908), (5938, 5939), (5970, 5971), (6002, 6003),
      (6068, 6069), (6071, 6077), (6086, 6086), (6089, 6099), (6103, 6103), (6109, 6109),
      (6155, 6159), (6211, 6211), (6277, 6278), (6313, 6313), (6432, 6434), (6439, 6440),
      (6450, 6450), (6457, 6459), (6679, 6680), (6683, 6683), (6742, 6742), (6744, 6750),
      (6752, 6752), (6754, 6754), (6757, 6764), (6771, 6780), (6783, 6783), (6823, 6823),
      (6832, 6862), (6912, 6915), (6964, 6964), (6966, 6970), (6972, 6972), (6978, 6978),
      (7019, 7027), (7040, 7041), (7074, 7077), (7080, 7081), (7083, 7085), (7142, 7142),
      (7144, 7145), (7149, 7149), (7151, 7153), (7212, 7219), (7222, 7223), (7288, 7293),
      (7376, 7378), (7380, 7392), (7394, 7400), (7405, 7405), (7412, 7412), (7416, 7417),
      (7468, 7530), (7544, 7544), (7579, 7679), (8125, 8125), (8127, 8129), (8141, 8143),
      (8157, 8159), (8173, 8175), (8189, 8190), (8203, 8207), (8216, 8217), (8228, 8228),
      (8231, 8231), (8234, 8238), (8288, 8292), (8294, 8303), (8305, 8305), (8319, 8319),
      (8336, 8348), (8400, 8432), (11388, 11389), (11503, 11505), (11631, 11631),
      (11647, 11647), (11744, 11775), (11823, 11823), (12293, 12293), (12330, 12333),
      (12337, 12341), (12347, 12347), (12441, 12446), (12540, 12542), (40981, 40981),
      (42232, 42237), (42508, 42508), (42607, 42610), (42612, 42621), (42623, 42623),
      (42652, 42655), (42736, 42737), (42752, 42785), (42864, 42864), (42888, 42890),
      (42994, 42996), (43000, 43001), (43010, 43010), (43014, 43014), (43019, 43019),
      (43045, 43046), (43052, 43052), (43204, 43205), (43232, 43249), (43263, 43263),
      (43302, 43309), (43335, 43345), (43392, 43394), (43443, 43443), (43446, 43449),
      (43452, 43453), (43471, 43471), (43493, 43494), (43561, 43566), (43569, 43570),
      (43573, 43574), (43587, 43587), (43596, 43596), (43632, 43632), (43644, 43644),
      (43696, 43696), (43698, 43700), (43703, 43704), (43710, 43711), (43713, 43713),
      (43741, 43741), (43756, 43757), (43763, 43764), (43766, 43766), (43867, 43871),
      (43881, 43883), (44005, 44005), (44008, 44008), (44013, 44013), (64286, 64286),
      (64434, 64450), (65024, 65039), (65043, 65043), (65056, 65071), (65106, 65106),
      (65109, 65109), (65279, 65279), (65287, 65287), (65294, 65294), (65306, 65306),
      (65342, 65342), (65344, 65344), (65392, 65392), (65438, 65439), (65507, 65507),
      (65529, 65531), (66045, 66045), (66272, 66272), (66422, 66426), (67456, 67461),
      (67463, 67504), (67506, 67514), (68097, 68099), (68101, 68102), (68108, 68111),
      (68152, 68154), (68159, 68159), (68325, 68326), (68900, 68903), (69291, 69292),
      (69446, 69456), (69506, 69509), (69633, 69633), (69688, 69702), (69744, 69744),
      (69747, 69748), (69759, 69761), (69811, 69814), (69817, 69818), (69821, 69821),
      (69826, 69826), (69837, 69837), (69888, 69890), (69927, 69931), (69933, 69940),
      (70003, 70003), (70016, 70017), (70070, 70078), (70089, 70092), (70095, 70095),
      (70191, 70193), (70196, 70196), (70198, 70199), (70206, 70206), (70367, 70367),
      (70371, 70378), (70400, 70401), (70459, 70460), (70464, 70464), (70502, 70508),
      (70512, 70516), (70712, 70719), (70722, 70724), (70726, 70726), (70750, 70750),
      (70835, 70840), (70842, 70842), (70847, 70848), (70850, 70851), (71090, 71093),
      (71100, 71101), (71103, 71104), (71132, 71133), (71219, 71226), (71229, 71229),
      (71231, 71232), (71339, 71339), (71341, 71341), (71344, 71349), (71351, 71351),
      (71453, 71455), (71458, 71461), (71463, 71467), (71727, 71735), (71737, 71738),
      (71995, 71996), (71998, 71998), (72003, 72003), (72148, 72151), (72154, 72155),
      (72160, 72160), (72193, 72202), (72243, 72248), (72251, 72254), (72263, 72263),
      (72273, 72278), (72281, 72283), (72330, 72342), (72344, 72345), (72752, 72758),
      (72760, 72765), (72767, 72767), (72850, 72871), (72874, 72880), (72882, 72883),
      (72885, 72886), (73009, 73014), (73018, 73018), (73020, 73021), (73023, 73029),
      (73031, 73031), (73104, 73105), (73109, 73109), (73111, 73111), (73459, 73460),
      (78896, 78904), (92912, 92916), (92976, 92982), (92992, 92995), (94031, 94031),
      (94095, 94111), (94176, 94177), (94179, 94180), (110576, 110579), (110581, 110587),
      (110589, 110590), (113821, 113822), (113824, 113827), (118528, 118573), (118576, 118598),
      (119143, 119145), (119155, 119170), (119173, 119179), (119210, 119213), (119362, 119364),
      (121344, 121398), (121403, 121452), (121461, 121461), (121476, 121476), (121499, 121503),
      (121505, 121519), (122880, 122886), (122888, 122904), (122907, 122913), (122915, 122916),
      (122918, 122922), (123184, 123197), (123566, 123566), (123628, 123631), (125136, 125142),
      (125252, 125259), (127995, 127999), (917505, 917505), (917536, 917631), (917760, 917999)]"

definition cased_ranges :: "(nat \<times> nat) list" where
  "cased_ranges =
     [(65, 90), (97, 122), (170, 170), (181, 181), (186, 186), (192, 214), (216, 246),
      (248, 442), (444, 447), (452, 659), (661, 687), (880, 883), (886, 887), (891, 893),
      (895, 895), (902, 902), (904, 906), (908, 908), (910, 929), (931, 1013), (1015, 1153),
      (1162, 1327), (1329, 1366), (1376, 1416), (4256, 4293), (4295, 4295), (4301, 4301),
      (4304, 4346), (4349, 4351), (5024, 5109), (5112, 5117), (7296, 7304), (7312, 7354),
      (7357, 7359), (7424, 7467), (7531, 7543), (7545, 7578), (7680, 7957), (7960, 7965),
      (7968, 8005), (8008, 8013), (8016, 8023), (8025, 8025), (8027, 8027), (8029, 8029),
      (8031, 8061), (8064, 8116), (8118, 8124), (8126, 8126), (8130, 8132), (8134, 8140),
      (8144, 8147), (8150, 8155), (8160, 8172), (8178, 8180), (8182, 8188), (8450, 8450),
      (8455, 8455), (8458, 8467), (8469, 8469), (8473, 8477), (8484, 8484), (8486, 8486),
      (8488, 8488), (8490, 8493), (8495, 8500), (8505, 8505), (8508, 8511), (8517, 8521),
      (8526, 8526), (8544, 8575), (8579, 8580), (9398, 9449), (11264, 11387), (11390, 11492),
      (11499, 11502), (11506, 11507), (11520, 11557), (11559, 11559), (11565, 11565),
      (42560, 42605), (42624, 42651), (42786, 42863), (42865, 42887), (42891, 42894),
      (42896, 42954), (42960, 42961), (42963, 42963), (42965, 42969), (42997, 42998),
      (43002, 43002), (43824, 43866), (43872, 43880), (43888, 43967), (64256, 64262),
      (64275, 64279), (65313, 65338), (65345, 65370), (66560, 66639), (66736, 66771),
      (66776, 66811), (66928, 66938), (66940, 66954), (66956, 66962), (66964, 66965),
      (66967, 66977), (66979, 66993), (66995, 67001), (67003, 67004), (68736, 68786),
      (68800, 68850), (71840, 71903), (93760, 93823), (119808, 119892), (119894, 119964),
      (119966, 119967), (119970, 119970), (119973, 119974), (119977, 119980), (119982, 119993),
      (119995, 119995), (119997, 120003), (120005, 120069), (120071, 120074), (120077, 120084),
      (120086, 120092), (120094, 120121), (120123, 120126), (120128, 120132), (120134, 120134),
      (120138, 120144), (120146, 120485), (120488, 120512), (120514, 120538), (120540, 120570),
      (120572, 120596), (120598, 120628), (120630, 120654), (120656, 120686), (120688, 120712),
      (120714, 120744), (120746, 120770), (120772, 120779), (122624, 122633), (122635, 122654),
      (125184, 125251), (127280, 127305), (127312, 127337), (127344, 127369)]"

definition case_ignorable :: "nat \<Rightarrow> bool" where
  "case_ignorable c \<longleftrightarrow> list_ex (\<lambda>(lo, hi). lo \<le> c \<and> c \<le> hi) ignorable_ranges"

definition cased :: "nat \<Rightarrow> bool" where
  "cased c \<longleftrightarrow> list_ex (\<lambda>(lo, hi). lo \<le> c \<and> c \<le> hi) cased_ranges"

text \<open>\<open>seen\<close> is the text before the sigma, last code point first; \<open>todo\<close> the text after it.\<close>

definition final_sigma :: "pystr \<Rightarrow> pystr \<Rightarrow> bool" where
  "final_sigma seen todo \<longleftrightarrow>
     (case dropWhile case_ignorable seen of [] \<Rightarrow> False | b # rest \<Rightarrow> cased b) \<and>
     (case dropWhile case_ignorable todo of [] \<Rightarrow> True | a # rest \<Rightarrow> \<not> cased a)"

fun lower_from :: "pystr \<Rightarrow> pystr \<Rightarrow> pystr" where
  "lower_from seen [] = []"
| "lower_from seen (c # cs) =
     (if c = 931 then [if final_sigma seen cs then 962 else 963] else lower_char c) @
     lower_from (c # seen) cs"

definition py_lower :: "pystr \<Rightarrow> pystr" where
  "py_lower s = lower_from [] s"

section \<open>Python numbers from strings\<close>

text \<open>
  \<open>int(s)\<close> and \<open>float(s)\<close> first replace every non-ASCII white space by a blank, every
  non-ASCII decimal digit by its ASCII digit and every other non-ASCII code point by \<open>?\<close>.
  The decimal digits of Unicode 14.0 come in runs of ten; \<open>nd_zeros\<close> lists the zero of
  each run.
\<close>

definition nd_zeros :: "nat list" where
  "nd_zeros =
     [48, 1632, 1776, 1984, 2406, 2534, 2662, 2790, 2918, 3046, 3174, 3302, 3430, 3558, 3664,
      3792, 3872, 4160, 4240, 6112, 6160, 6470, 6608, 6784, 6800, 6992, 7088, 7232, 7248,
      42528, 43216, 43264, 43472, 43504, 43600, 44016, 65296, 66720, 68912, 69734, 69872,
      69942, 70096, 70384, 70736, 70864, 71248, 71360, 71472, 71904, 72016, 72784, 73040,
      73120, 92768, 92864, 93008, 120782, 120792, 120802, 120812, 120822, 123200, 123632,
      125264, 130032]"

definition decimal_of :: "nat \<Rightarrow> nat option" where
  "decimal_of c =
     (case find (\<lambda>z. z \<le> c \<and> c \<le> z + 9) nd_zeros of None \<Rightarrow> None | Some z \<Rightarrow> Some (c - z))"

definition to_ascii_char :: "nat \<Rightarrow> nat" where
  "to_ascii_char c =
     (if c < 128 then c
      else if py_isspace c then 32
      else (case decimal_of c of Some d \<Rightarrow> 48 + d | None \<Rightarrow> 63))"

definition to_ascii :: "pystr \<Rightarrow> pystr" where
  "to_ascii s = map to_ascii_char s"

definition c_isspace :: "nat \<Rightarrow> bool" where
  "c_isspace c \<longleftrightarrow> (9 \<le> c \<and> c \<le> 13) \<or> c = 32"

definition c_strip :: "pystr \<Rightarrow> pystr" where
  "c_strip s = rev (dropWhile c_isspace (rev (dropWhile c_isspace s)))"

definition is_digit :: "nat \<Rightarrow> bool" where
  "is_digit c \<longleftrightarrow> 48 \<le> c \<and> c \<le> 57"

text \<open>
  The digits of a base 10 literal, with single underscores between digits; \<open>prev\<close> is the
  character read last and \<open>acc\<close> the value read so far.
\<close>

fun int_digits :: "nat \<Rightarrow> int \<Rightarrow> pystr \<Rightarrow> int option" where
  "int_digits prev acc [] = (if prev = 95 then None else Some acc)"
| "int_digits prev acc (c # cs) =
     (if c = 95 then (if prev = 95 then None else int_digits c acc cs)
      else if is_digit c then int_digits c (acc * 10 + int (c - 48)) cs
      else None)"

text \<open>
  \<open>int(s)\<close>: \<open>None\<close> is the \<open>ValueError\<close>. The literal is white space, an optional sign,
  digits, white space. A literal of more than 4300 digits is a \<open>ValueError\<close> too: 4300 is
  the interpreter's limit on the digits of a decimal string unless it is configured
  otherwise, and it counts the leading zeros but not the sign, the underscores or the
  white space.
\<close>

definition py_int :: "pystr \<Rightarrow> int option" where
  "py_int s =
     (let cs = c_strip (to_ascii s);
          neg = (cs \<noteq> [] \<and> hd cs = 45);
          ds = (if cs \<noteq> [] \<and> (hd cs = 43 \<or> hd cs = 45) then tl cs else cs)
      in if ds = [] \<or> hd ds = 95 then None
         else if 4300 < length (filter is_digit ds) then None
         else (case int_digits 0 0 ds of
                 None \<Rightarrow> None
               | Some v \<Rightarrow> Some (if neg then - v else v)))"

text \<open>
  \<open>float(s)\<close> accepts \<open>[sign] (digits [. [digits]] | . digits) [(e|E) [sign] digits]\<close> and
  \<open>[sign] (inf | infinity | nan)\<close> in any case, with underscores allowed between two
  digits only. Floating point values are not modelled: an accepted literal stands for the
  float it denotes.
\<close>

datatype pyfloat = FloatLit pystr

datatype pynum = PyInt int | PyFloat pyfloat

fun float_underscores :: "nat \<Rightarrow> pystr \<Rightarrow> bool" where
  "float_underscores prev [] \<longleftrightarrow> prev \<noteq> 95"
| "float_underscores prev (c # cs) \<longleftrightarrow>
     (if c = 95 then is_digit prev \<and> float_underscores c cs
      else if prev = 95 then is_digit c \<and> float_underscores c cs
      else float_underscores c cs)"

definition float_exponent :: "pystr \<Rightarrow> bool" where
  "float_exponent r \<longleftrightarrow>
     (case r of
        [] \<Rightarrow> True
      | c # e \<Rightarrow>
          (c = 101 \<or> c = 69) \<and>
          (let d = (if e \<noteq> [] \<and> (hd e = 43 \<or> hd e = 45) then tl e else e)
           in d \<noteq> [] \<and> list_all is_digit d))"

definition float_body :: "pystr \<Rightarrow> bool" where
  "float_body cs \<longleftrightarrow>
     (let lc = py_lower cs
      in if lc = ascii ''inf'' \<or> lc = ascii ''infinity'' \<or> lc = ascii ''nan'' then True
         else
           (let ip = takeWhile is_digit cs;
                r = dropWhile is_digit cs;
                fp = (if r \<noteq> [] \<and> hd r = 46 then takeWhile is_digit (tl r) else []);
                r' = (if r \<noteq> [] \<and> hd r = 46 then dropWhile is_digit (tl r) else r)
            in (ip \<noteq> [] \<or> fp \<noteq> []) \<and> float_exponent r'))"

definition py_float :: "pystr \<Rightarrow> pyfloat option" where
  "py_float s =
     (let cs = to_ascii s
      in if 95 \<in> set cs \<and> \<not> float_underscores 0 cs then None
         else
           (let lit = c_strip (filter (\<lambda>c. c \<noteq> 95) cs);
                body = (if lit \<noteq> [] \<and> (hd lit = 43 \<or> hd lit = 45) then tl lit else lit)
            in if float_body body then Some (FloatLit lit) else None))"

section \<open>The parsed chart\<close>

text \<open>
  The dictionaries built by \<open>Tja._parse\<close> (src/tjaf.py) as records. A key that a dictionary
  may lack (\<open>exams\<close> and \<open>songs\<close> of a course) is an optional field: \<open>None\<close> is the absent
  key. \<open>stars\<close> is always present and may hold Python's \<open>None\<close>.
\<close>

record exam =
  exam_id :: int
  exam_type :: pystr
  red_pass :: int
  gold_pass :: int
  scope :: pystr

record song =
  song_title :: pystr
  song_artist :: pystr
  song_genre :: pystr
  song_wave :: pystr
  song_offset :: pynum
  scoreInit :: int

record course =
  stars :: "int option"
  branch :: bool
  exams :: "exam list option"
  songs :: "song list option"

text \<open>The fields of the object, set by \<open>__init__\<close> and written by \<open>_parse\<close>.\<close>

record Tja =
  tja_text :: pystr
  title :: "pystr option"
  subtitle :: "pystr option"
  title_ja :: "pystr option"
  subtitle_ja :: "pystr option"
  wave :: "pystr option"
  offset :: "pyfloat option"
  courses :: "pystr \<rightharpoonup> course"

text \<open>The local variables of \<open>_parse\<close> that live across the loop.\<close>

record locals =
  current_course :: "pystr option"
  current_exams :: "exam list"
  current_songs :: "song list"
  in_song_section :: bool

datatype error = ValueError | KeyError

definition Tja_init :: "pystr \<Rightarrow> Tja" where
  "Tja_init txt =
     \<lparr>tja_text = txt, title = None, subtitle = None, title_ja = None, subtitle_ja = None,
      wave = None, offset = None, courses = Map.empty\<rparr>"

definition locals_init :: locals where
  "locals_init =
     \<lparr>current_course = None, current_exams = [], current_songs = [], in_song_section = False\<rparr>"

section \<open>The line scanner\<close>

text \<open>\<open>val or None\<close>.\<close>

definition or_None :: "pystr \<Rightarrow> pystr option" where
  "or_None v = (if v = [] then None else Some v)"

text \<open>The truth value of \<open>current_course\<close>: neither \<open>None\<close> nor the empty string.\<close>

definition truthy :: "pystr option \<Rightarrow> bool" where
  "truthy cc \<longleftrightarrow> (case cc of None \<Rightarrow> False | Some c \<Rightarrow> c \<noteq> [])"

text \<open>\<open>course_map.get\<close> (lines 81 to 91).\<close>

definition course_map :: "pystr \<Rightarrow> pystr option" where
  "course_map =
     map_of
       [(ascii ''EASY'', ascii ''easy''),
        (ascii ''NORMAL'', ascii ''normal''),
        (ascii ''HARD'', ascii ''hard''),
        (ascii ''ONI'', ascii ''oni''),
        (ascii ''EDIT'', ascii ''ura''),
        (ascii ''URA'', ascii ''ura''),
        (ascii ''DAN'', ascii ''dan''),
        (ascii ''TOWER'', ascii ''tower'')]"

text \<open>
  The dictionary of a \<open>#NEXTSONG\<close> line (lines 34 to 41). The entries are evaluated in
  order; \<open>float\<close> and \<open>int\<close> raise \<open>ValueError\<close> and nothing catches it.
\<close>

definition song_info :: "pystr list \<Rightarrow> error + song" where
  "song_info parts =
     (case (if 4 < length parts \<and> py_strip (parts ! 4) \<noteq> []
            then map_option PyFloat (py_float (py_strip (parts ! 4)))
            else Some (PyInt 0)) of
        None \<Rightarrow> Inl ValueError
      | Some off \<Rightarrow>
          (case (if 5 < length parts \<and> py_strip (parts ! 5) \<noteq> []
                 then py_int (py_strip (parts ! 5))
                 else Some 0) of
             None \<Rightarrow> Inl ValueError
           | Some sc \<Rightarrow>
               Inr \<lparr>song_title = (if 0 < length parts then py_strip (parts ! 0) else []),
                    song_artist = (if 1 < length parts then py_strip (parts ! 1) else []),
                    song_genre = (if 2 < length parts then py_strip (parts ! 2) else []),
                    song_wave = (if 3 < length parts then py_strip (parts ! 3) else []),
                    song_offset = off,
                    scoreInit = sc\<rparr>))"

text \<open>Lines 30 to 43: a line whose upper-case form starts with \<open>#NEXTSONG\<close>.\<close>

definition on_nextsong :: "Tja \<times> locals \<Rightarrow> pystr \<Rightarrow> error + Tja \<times> locals" where
  "on_nextsong s line =
     (let parts = py_split 44 (py_strip (drop 9 line))
      in if 4 \<le> length parts
         then (case song_info parts of
                 Inl e \<Rightarrow> Inl e
               | Inr si \<Rightarrow>
                   Inr (fst s, (snd s)\<lparr>current_songs := current_songs (snd s) @ [si]\<rparr>))
         else Inr s)"

text \<open>
  The commit of the pending exams and songs into the record of the active course: lines
  75 to 79 at a \<open>COURSE\<close> line and lines 134 to 138 at the end of the input.
\<close>

definition commit :: "Tja \<Rightarrow> locals \<Rightarrow> Tja" where
  "commit t l =
     (case current_course l of
        None \<Rightarrow> t
      | Some c \<Rightarrow>
          (if c = [] then t
           else (case courses t c of
                   None \<Rightarrow> t
                 | Some r \<Rightarrow>
                     t\<lparr>courses := (courses t)(c \<mapsto>
                          r\<lparr>exams := (if current_exams l \<noteq> [] then Some (current_exams l)
                                       else exams r),
                            songs := (if current_songs l \<noteq> [] then Some (current_songs l)
                                      else songs r)\<rparr>)\<rparr>)))"

text \<open>Lines 73 to 96: a \<open>COURSE\<close> line.\<close>

definition on_course :: "Tja \<times> locals \<Rightarrow> pystr \<Rightarrow> Tja \<times> locals" where
  "on_course s val =
     (let t1 = commit (fst s) (snd s);
          cc = course_map (py_upper (py_strip val));
          t2 = (case cc of
                  None \<Rightarrow> t1
                | Some c \<Rightarrow>
                    (if c \<noteq> [] \<and> courses t1 c = None
                     then t1\<lparr>courses := (courses t1)(c \<mapsto>
                            \<lparr>stars = None, branch = False, exams = None, songs = None\<rparr>)\<rparr>
                     else t1))
      in (t2, (snd s)\<lparr>current_course := cc, current_exams := [], current_songs := []\<rparr>))"

text \<open>
  An assignment \<open>self.courses[current_course][...] = ...\<close>: a \<open>KeyError\<close> when the course
  has no record.
\<close>

definition update_course ::
  "Tja \<times> locals \<Rightarrow> (course \<Rightarrow> course) \<Rightarrow> error + Tja \<times> locals" where
  "update_course s f =
     (case current_course (snd s) of
        None \<Rightarrow> Inl KeyError
      | Some c \<Rightarrow>
          (case courses (fst s) c of
             None \<Rightarrow> Inl KeyError
           | Some r \<Rightarrow> Inr ((fst s)\<lparr>courses := (courses (fst s))(c \<mapsto> f r)\<rparr>, snd s)))"

text \<open>
  Lines 98 to 103: a \<open>LEVEL\<close> line under an active course. \<open>re.split(r"\s+", val)[0]\<close> is
  the text before the first white space.
\<close>

definition on_level :: "Tja \<times> locals \<Rightarrow> pystr \<Rightarrow> error + Tja \<times> locals" where
  "on_level s val =
     update_course s (\<lambda>r. r\<lparr>stars := py_int (takeWhile (\<lambda>c. \<not> py_isspace c) val)\<rparr>)"

text \<open>
  Lines 112 to 127: the dictionary of an \<open>EXAM\<close> line of at least three fields. A
  \<open>ValueError\<close> of either \<open>int\<close> sets both thresholds to 0. \<open>int(key[-1])\<close> raises on a
  key that does not end in a digit.
\<close>

definition exam_data :: "pystr \<Rightarrow> pystr list \<Rightarrow> error + exam" where
  "exam_data key exam_parts =
     (let p1 = py_strip (exam_parts ! 1);
          p2 = py_strip (exam_parts ! 2);
          r = (if p1 \<noteq> [] then py_int p1 else Some 0);
          g = (if p2 \<noteq> [] then py_int p2 else Some 0);
          failed = (r = None \<or> g = None)
      in (case (if key = [] then None else py_int [last key]) of
            None \<Rightarrow> Inl ValueError
          | Some n \<Rightarrow>
              Inr \<lparr>exam_id = n,
                   exam_type = py_lower (py_strip (exam_parts ! 0)),
                   red_pass = (if failed then 0 else case r of Some x \<Rightarrow> x | None \<Rightarrow> 0),
                   gold_pass = (if failed then 0 else case g of Some x \<Rightarrow> x | None \<Rightarrow> 0),
                   scope = (if 3 < length exam_parts then py_lower (py_strip (exam_parts ! 3))
                            else ascii ''l'')\<rparr>))"

text \<open>Lines 106 to 128: an \<open>EXAM1\<close> .. \<open>EXAM4\<close> line under an active course.\<close>

definition on_exam :: "Tja \<times> locals \<Rightarrow> pystr \<Rightarrow> pystr \<Rightarrow> error + Tja \<times> locals" where
  "on_exam s key val =
     (let exam_parts = py_split 44 val
      in if 3 \<le> length exam_parts
         then (case exam_data key exam_parts of
                 Inl e \<Rightarrow> Inl e
               | Inr x \<Rightarrow>
                   Inr (fst s, (snd s)\<lparr>current_exams := current_exams (snd s) @ [x]\<rparr>))
         else Inr s)"

definition exam_keys :: "pystr list" where
  "exam_keys = [ascii ''EXAM1'', ascii ''EXAM2'', ascii ''EXAM3'', ascii ''EXAM4'']"

text \<open>Lines 53 to 128: a line with a colon, split at the first one.\<close>

definition on_key_value :: "Tja \<times> locals \<Rightarrow> pystr \<Rightarrow> pystr \<Rightarrow> error + Tja \<times> locals" where
  "on_key_value s key val =
     (if key = ascii ''TITLE'' then Inr ((fst s)\<lparr>title := or_None val\<rparr>, snd s)
      else if key = ascii ''TITLEJA'' then Inr ((fst s)\<lparr>title_ja := or_None val\<rparr>, snd s)
      else if key = ascii ''SUBTITLE'' then Inr ((fst s)\<lparr>subtitle := or_None val\<rparr>, snd s)
      else if key = ascii ''SUBTITLEJA'' then Inr ((fst s)\<lparr>subtitle_ja := or_None val\<rparr>, snd s)
      else if key = ascii ''WAVE'' then Inr ((fst s)\<lparr>wave := or_None val\<rparr>, snd s)
      else if key = ascii ''OFFSET'' then Inr ((fst s)\<lparr>offset := py_float val\<rparr>, snd s)
      else if key = ascii ''COURSE'' then Inr (on_course s val)
      else if key = ascii ''LEVEL'' \<and> truthy (current_course (snd s)) then on_level s val
      else if key \<in> set exam_keys \<and> truthy (current_course (snd s)) then on_exam s key val
      else Inr s)"

text \<open>Lines 129 to 131: a line without a colon.\<close>

definition on_other :: "Tja \<times> locals \<Rightarrow> pystr \<Rightarrow> error + Tja \<times> locals" where
  "on_other s line =
     (if truthy (current_course (snd s)) \<and>
         (startswith line (ascii ''BRANCHSTART'') \<or> startswith line (ascii ''#BRANCHSTART''))
      then update_course s (\<lambda>r. r\<lparr>branch := True\<rparr>)
      else Inr s)"

text \<open>The body of the loop (lines 25 to 131) on one raw line.\<close>

definition step :: "Tja \<times> locals \<Rightarrow> pystr \<Rightarrow> error + Tja \<times> locals" where
  "step s raw =
     (let line = py_strip raw
      in if line = [] then Inr s
         else if startswith (py_upper line) (ascii ''#NEXTSONG'') then on_nextsong s line
         else if startswith (py_upper line) (ascii ''#START'')
           then Inr (fst s, (snd s)\<lparr>in_song_section := True\<rparr>)
         else if startswith (py_upper line) (ascii ''#END'')
           then Inr (fst s, (snd s)\<lparr>in_song_section := False\<rparr>)
         else if 58 \<in> set line
           then on_key_value s (py_upper (py_strip (fst (split_once 58 line))))
                  (py_strip (snd (split_once 58 line)))
         else on_other s line)"

text \<open>The loop over the lines: the first error ends it.\<close>

fun run :: "Tja \<times> locals \<Rightarrow> pystr list \<Rightarrow> error + Tja \<times> locals" where
  "run s [] = Inr s"
| "run s (raw # raws) = (case step s raw of Inl e \<Rightarrow> Inl e | Inr s' \<Rightarrow> run s' raws)"

text \<open>\<open>_parse\<close> from a given state of the object and of the locals, on the lines given.\<close>

definition parse_lines :: "Tja \<times> locals \<Rightarrow> pystr list \<Rightarrow> error + Tja" where
  "parse_lines s raws =
     (case run s raws of Inl e \<Rightarrow> Inl e | Inr s' \<Rightarrow> Inr (commit (fst s') (snd s')))"

text \<open>\<open>Tja(text)\<close>: the constructor, which ends in \<open>_parse\<close>.\<close>

definition parse :: "pystr \<Rightarrow> error + Tja" where
  "parse txt = parse_lines (Tja_init txt, locals_init) (py_split 10 txt)"

section \<open>Kinds of lines\<close>

text \<open>
  What the dispatch of the loop body sees in a raw line: the key and the value of a line
  that reaches the key and value branch (line 53), and the lines that reach the other
  branches.
\<close>

definition line_key :: "pystr \<Rightarrow> pystr option" where
  "line_key raw =
     (let line = py_strip raw
      in if line = [] then None
         else if startswith (py_upper line) (ascii ''#NEXTSONG'') then None
         else if startswith (py_upper line) (ascii ''#START'') then None
         else if startswith (py_upper line) (ascii ''#END'') then None
         else if 58 \<in> set line then Some (py_upper (py_strip (fst (split_once 58 line))))
         else None)"

definition line_val :: "pystr \<Rightarrow> pystr" where
  "line_val raw = py_strip (snd (split_once 58 (py_strip raw)))"

definition is_course_line :: "pystr \<Rightarrow> bool" where
  "is_course_line raw \<longleftrightarrow> line_key raw = Some (ascii ''COURSE'')"

text \<open>The course a \<open>COURSE\<close> line names, if it names one of the table.\<close>

definition course_of_line :: "pystr \<Rightarrow> pystr option" where
  "course_of_line raw =
     (if is_course_line raw then course_map (py_upper (py_strip (line_val raw))) else None)"

definition is_level_line :: "pystr \<Rightarrow> bool" where
  "is_level_line raw \<longleftrightarrow> line_key raw = Some (ascii ''LEVEL'')"

definition is_exam_line :: "pystr \<Rightarrow> bool" where
  "is_exam_line raw \<longleftrightarrow> (case line_key raw of None \<Rightarrow> False | Some k \<Rightarrow> k \<in> set exam_keys)"

definition is_nextsong_line :: "pystr \<Rightarrow> bool" where
  "is_nextsong_line raw \<longleftrightarrow> startswith (py_upper (py_strip raw)) (ascii ''#NEXTSONG'')"

definition is_start_line :: "pystr \<Rightarrow> bool" where
  "is_start_line raw \<longleftrightarrow>
     \<not> is_nextsong_line raw \<and> startswith (py_upper (py_strip raw)) (ascii ''#START'')"

definition is_end_line :: "pystr \<Rightarrow> bool" where
  "is_end_line raw \<longleftrightarrow>
     \<not> is_nextsong_line raw \<and> \<not> is_start_line raw \<and>
     startswith (py_upper (py_strip raw)) (ascii ''#END'')"

text \<open>A line that reaches line 130 and starts with one of the two branch tokens.\<close>

definition is_branch_line :: "pystr \<Rightarrow> bool" where
  "is_branch_line raw \<longleftrightarrow>
     58 \<notin> set (py_strip raw) \<and>
     (startswith (py_strip raw) (ascii ''BRANCHSTART'') \<or>
      startswith (py_strip raw) (ascii ''#BRANCHSTART''))"

text \<open>The fields of a \<open>#NEXTSONG\<close> line and of an \<open>EXAM\<close> line.\<close>

definition song_parts :: "pystr \<Rightarrow> pystr list" where
  "song_parts raw = py_split 44 (py_strip (drop 9 (py_strip raw)))"

definition exam_parts_of :: "pystr \<Rightarrow> pystr list" where
  "exam_parts_of raw = py_split 44 (line_val raw)"

text \<open>
  A \<open>#NEXTSONG\<close> line of at least four fields whose offset or scoreInit field is present,
  not blank, and not a number.
\<close>

definition bad_nextsong :: "pystr \<Rightarrow> bool" where
  "bad_nextsong raw \<longleftrightarrow>
     is_nextsong_line raw \<and> 4 \<le> length (song_parts raw) \<and>
     ((4 < length (song_parts raw) \<and> py_strip (song_parts raw ! 4) \<noteq> [] \<and>
       py_float (py_strip (song_parts raw ! 4)) = None) \<or>
      (5 < length (song_parts raw) \<and> py_strip (song_parts raw ! 5) \<noteq> [] \<and>
       py_int (py_strip (song_parts raw ! 5)) = None))"

text \<open>
  An \<open>EXAM1\<close> .. \<open>EXAM4\<close> line of at least three fields whose red or gold threshold is not
  blank and not a number.
\<close>

definition bad_exam :: "pystr \<Rightarrow> bool" where
  "bad_exam raw \<longleftrightarrow>
     is_exam_line raw \<and> 3 \<le> length (exam_parts_of raw) \<and>
     ((py_strip (exam_parts_of raw ! 1) \<noteq> [] \<and> py_int (py_strip (exam_parts_of raw ! 1)) = None) \<or>
      (py_strip (exam_parts_of raw ! 2) \<noteq> [] \<and> py_int (py_strip (exam_parts_of raw ! 2)) = None))"

text \<open>The records a line appends to the pending songs and, under an active course, exams.\<close>

definition songs_added :: "pystr \<Rightarrow> song list" where
  "songs_added raw =
     (if is_nextsong_line raw \<and> 4 \<le> length (song_parts raw)
      then (case song_info (song_parts raw) of Inl e \<Rightarrow> [] | Inr si \<Rightarrow> [si])
      else [])"

definition exams_added :: "pystr \<Rightarrow> exam list" where
  "exams_added raw =
     (case line_key raw of
        None \<Rightarrow> []
      | Some k \<Rightarrow>
          (if k \<in> set exam_keys \<and> 3 \<le> length (exam_parts_of raw)
           then (case exam_data k (exam_parts_of raw) of Inl e \<Rightarrow> [] | Inr x \<Rightarrow> [x])
           else []))"

text \<open>
  The invariant of the loop: an active course is a non-empty name that has a record, so
  the assignments of lines 103 and 131 find their key.
\<close>

definition active_ok :: "Tja \<times> locals \<Rightarrow> bool" where
  "active_ok s \<longleftrightarrow>
     (case current_course (snd s) of
        None \<Rightarrow> True
      | Some c \<Rightarrow> c \<noteq> [] \<and> courses (fst s) c \<noteq> None)"

section \<open>The document\<close>

text \<open>\<open>p.rfind(c)\<close> for a character: the last index of \<open>c\<close>, or -1.\<close>

definition rfind :: "nat \<Rightarrow> pystr \<Rightarrow> int" where
  "rfind c p =
     (if c \<in> set p then int (length p) - 1 - int (length (takeWhile (\<lambda>x. x \<noteq> c) (rev p)))
      else - 1)"

text \<open>\<open>os.path.basename\<close> of \<open>posixpath\<close>: the text after the last slash.\<close>

definition basename :: "pystr \<Rightarrow> pystr" where
  "basename p = drop (nat (rfind 47 p + 1)) p"

text \<open>
  The loop of \<open>genericpath._splitext\<close>: is there a character other than the dot at the
  indices \<open>filenameIndex\<close>, ..., \<open>dotIndex - 1\<close>?
\<close>

function splitext_loop :: "pystr \<Rightarrow> nat \<Rightarrow> nat \<Rightarrow> bool" where
  "splitext_loop p filenameIndex dotIndex =
     (if filenameIndex < dotIndex
      then (if take 1 (drop filenameIndex p) \<noteq> [46] then True
            else splitext_loop p (filenameIndex + 1) dotIndex)
      else False)"
  by pat_completeness auto
termination
  by (relation "measure (\<lambda>(p, filenameIndex, dotIndex). dotIndex - filenameIndex)") auto

declare splitext_loop.simps [simp del]

text \<open>
  \<open>os.path.splitext\<close> of \<open>posixpath\<close>: the extension starts at the last dot, when that dot
  comes after the last slash and after a character of the file name that is not a dot.
\<close>

definition splitext :: "pystr \<Rightarrow> pystr \<times> pystr" where
  "splitext p =
     (let sepIndex = rfind 47 p; dotIndex = rfind 46 p
      in if sepIndex < dotIndex \<and> splitext_loop p (nat (sepIndex + 1)) (nat dotIndex)
         then (take (nat dotIndex) p, drop (nat dotIndex) p)
         else (p, []))"

text \<open>Lines 141 to 148 of \<open>to_mongo\<close>: the music type of the \<open>wave\<close> field.\<close>

definition file_ext :: "pystr option \<Rightarrow> pystr" where
  "file_ext wv =
     (let ext =
        (case wv of
           None \<Rightarrow> None
         | Some w \<Rightarrow>
             (if w = [] then None
              else (let e = snd (splitext (basename w))
                    in if e \<noteq> [] then Some (py_lower (dropWhile (\<lambda>c. c = 46) e)) else None)))
      in (case ext of None \<Rightarrow> ascii ''mp3'' | Some x \<Rightarrow> if x = [] then ascii ''mp3'' else x))"

text \<open>\<open>a or b\<close> on optional strings.\<close>

definition py_or :: "pystr option \<Rightarrow> pystr option \<Rightarrow> pystr option" where
  "py_or a b = (case a of None \<Rightarrow> b | Some x \<Rightarrow> if x = [] then b else a)"

record lang =
  lang_ja :: "pystr option"
  lang_en :: "pystr option"
  lang_cn :: "pystr option"
  lang_tw :: "pystr option"
  lang_ko :: "pystr option"

text \<open>
  The dictionary that \<open>to_mongo\<close> returns. The fields that are always \<open>None\<close> have the type
  \<open>unit option\<close>; \<open>volume\<close> is the float literal \<open>1.0\<close>.
\<close>

record mongo_doc =
  doc_id :: pystr
  doc_type :: pystr
  doc_title :: "pystr option"
  doc_subtitle :: "pystr option"
  title_lang :: lang
  subtitle_lang :: lang
  doc_courses :: "(pystr \<times> course option) list"
  enabled :: bool
  category_id :: "unit option"
  music_type :: pystr
  doc_offset :: int
  skin_id :: "unit option"
  preview :: int
  volume :: pyfloat
  maker_id :: "unit option"
  doc_hash :: "unit option"
  doc_order :: pystr
  created_ns :: int

definition course_names :: "pystr list" where
  "course_names =
     [ascii ''easy'', ascii ''normal'', ascii ''hard'', ascii ''oni'', ascii ''ura'',
      ascii ''dan'', ascii ''tower'']"

text \<open>
  \<open>to_mongo\<close> (lines 140 to 191). A record of a course is a dictionary with the keys
  \<open>stars\<close> and \<open>branch\<close>, so it is true and its copy is stored.
\<close>

definition to_mongo :: "Tja \<Rightarrow> pystr \<Rightarrow> int \<Rightarrow> mongo_doc" where
  "to_mongo t song_id ns =
     \<lparr>doc_id = song_id,
      doc_type = ascii ''tja'',
      doc_title = title t,
      doc_subtitle = subtitle t,
      title_lang =
        \<lparr>lang_ja = py_or (title_ja t) (title t), lang_en = None,
         lang_cn = py_or (title_ja t) None, lang_tw = None, lang_ko = None\<rparr>,
      subtitle_lang =
        \<lparr>lang_ja = py_or (subtitle_ja t) (subtitle t), lang_en = None,
         lang_cn = py_or (subtitle_ja t) None, lang_tw = None, lang_ko = None\<rparr>,
      doc_courses = map (\<lambda>name. (name, courses t name)) course_names,
      enabled = False,
      category_id = None,
      music_type = file_ext (wave t),
      doc_offset = 0,
      skin_id = None,
      preview = 0,
      volume = FloatLit (ascii ''1.0''),
      maker_id = None,
      doc_hash = None,
      doc_order = song_id,
      created_ns = ns\<rparr>"

text \<open>The text without its \<open>EXAM\<close> lines and its \<open>#NEXTSONG\<close> lines.\<close>

definition drop_exam_song_lines :: "pystr \<Rightarrow> pystr" where
  "drop_exam_song_lines txt =
     py_join 10 (filter (\<lambda>raw. \<not> is_exam_line raw \<and> \<not> is_nextsong_line raw) (py_split 10 txt))"

text \<open>
  The example input of the specification, line by line; U+2605 is the star in the
  \<open>LEVEL\<close> line and 10 is the line feed.
\<close>

definition example_text :: pystr where
  "example_text =
     ascii ''TITLE:Foo'' @ [10] @
     ascii ''COURSE:ONI'' @ [10] @
     ascii ''LEVEL:8 ('' @ [9733] @ ascii '')'' @ [10] @
     ascii ''EXAM1:g,80,100,m'' @ [10] @
     ascii ''BRANCHSTART'' @ [10] @
     ascii ''COURSE:HARD'' @ [10] @
     ascii ''LEVEL:5'' @ [10]"

section \<open>Evaluation\<close>

lemmas str_defs =
  ascii_def py_strip_def py_lstrip_def py_rstrip_def py_isspace_def py_upper_def upper_char_def
  py_lower_def lower_char_def startswith_def split_once_def

lemmas num_defs =
  py_int_def py_float_def to_ascii_def to_ascii_char_def c_strip_def c_isspace_def is_digit_def
  float_body_def float_exponent_def decimal_of_def nd_zeros_def

lemmas handler_defs =
  on_key_value_def on_nextsong_def on_level_def on_exam_def on_other_def update_course_def

lemmas scan_defs =
  step_def handler_defs or_None_def song_info_def commit_def on_course_def exam_data_def
  exam_keys_def truthy_def course_map_def parse_lines_def parse_def Tja_init_def locals_init_def

lemmas kind_defs =
  bad_nextsong_def bad_exam_def is_nextsong_line_def is_exam_line_def is_course_line_def
  is_level_line_def is_branch_line_def is_start_line_def is_end_line_def
  line_key_def line_val_def song_parts_def exam_parts_of_def course_of_line_def

section \<open>Lemmas about the scanner\<close>

subsection \<open>Splitting and joining\<close>

lemma py_split_not_Nil: "py_split c s \<noteq> []"
  by (induction s) (auto split: list.splits)

lemma py_split_no_sep: "l \<in> set (py_split c s) \<Longrightarrow> c \<notin> set l"
proof (induction s arbitrary: l)
  case Nil
  then show ?case by simp
next
  case (Cons a s)
  then show ?case
    by (cases "py_split c s") (auto split: if_splits)
qed

lemma py_split_sep_free: "c \<notin> set p \<Longrightarrow> py_split c p = [p]"
  by (induction p) auto

lemma py_split_append_sep:
  "c \<notin> set p \<Longrightarrow> py_split c (p @ c # s) = p # py_split c s"
  by (induction p) auto

lemma py_split_join:
  "ls \<noteq> [] \<Longrightarrow> \<forall>l \<in> set ls. c \<notin> set l \<Longrightarrow> py_split c (py_join c ls) = ls"
proof (induction c ls rule: py_join.induct)
  case (1 sep)
  then show ?case by simp
next
  case (2 sep p)
  then show ?case by (simp add: py_split_sep_free)
next
  case (3 sep p q ps)
  then show ?case by (simp add: py_split_append_sep)
qed

subsection \<open>The exam record of a key\<close>

lemma exam_keys_last:
  "py_int [last (ascii ''EXAM1'')] = Some 1" "py_int [last (ascii ''EXAM2'')] = Some 2"
  "py_int [last (ascii ''EXAM3'')] = Some 3" "py_int [last (ascii ''EXAM4'')] = Some 4"
  by (simp_all add: str_defs num_defs Let_def)

lemma exam_key_id:
  "k \<in> set exam_keys \<Longrightarrow> k \<noteq> [] \<and> (\<exists>n. py_int [last k] = Some n \<and> n \<in> {1, 2, 3, 4})"
  unfolding exam_keys_def using exam_keys_last by (auto simp: ascii_def)

lemma exam_data_ok: "k \<in> set exam_keys \<Longrightarrow> \<exists>x. exam_data k parts = Inr x"
  using exam_key_id [of k] by (auto simp: exam_data_def Let_def)

lemma exam_keys_not_level:
  "ascii ''LEVEL'' \<notin> set exam_keys" "ascii ''COURSE'' \<notin> set exam_keys"
  "ascii ''TITLE'' \<notin> set exam_keys" "ascii ''TITLEJA'' \<notin> set exam_keys"
  "ascii ''SUBTITLE'' \<notin> set exam_keys" "ascii ''SUBTITLEJA'' \<notin> set exam_keys"
  "ascii ''WAVE'' \<notin> set exam_keys" "ascii ''OFFSET'' \<notin> set exam_keys"
  by (simp_all add: exam_keys_def ascii_def)

subsection \<open>The invariant of the loop\<close>

lemma active_ok_iff:
  "active_ok s \<longleftrightarrow> (\<forall>c. current_course (snd s) = Some c \<longrightarrow> c \<noteq> [] \<and> courses (fst s) c \<noteq> None)"
  by (auto simp: active_ok_def split: option.splits)

lemma active_ok_init: "active_ok (Tja_init txt, locals_init)"
  by (simp add: active_ok_def locals_init_def)

lemma course_map_not_Nil: "course_map k = Some c \<Longrightarrow> c \<noteq> []"
  by (auto simp: course_map_def ascii_def split: if_splits)

lemma commit_courses_None: "courses (commit t l) c = None \<longleftrightarrow> courses t c = None"
  by (auto simp: commit_def split: option.splits)

lemma commit_courses_dom: "dom (courses (commit t l)) = dom (courses t)"
  using commit_courses_None [of t l] by (auto simp: dom_def)

lemma on_course_active_ok: "active_ok (on_course s v)"
proof -
  have "c \<in> dom (courses (commit (fst s) (snd s)))" if "courses (fst s) c = Some y" for c y
    using that by (simp add: commit_courses_dom domI)
  then show ?thesis
    by (auto simp: active_ok_iff on_course_def Let_def
        dest: course_map_not_Nil split: option.splits)
qed

lemma on_nextsong_active_ok: "active_ok s \<Longrightarrow> on_nextsong s line = Inr s' \<Longrightarrow> active_ok s'"
  by (auto simp: on_nextsong_def Let_def active_ok_iff split: if_splits sum.splits)

lemma update_course_active_ok: "active_ok s \<Longrightarrow> update_course s f = Inr s' \<Longrightarrow> active_ok s'"
  by (auto simp: update_course_def active_ok_iff split: option.splits)

lemma on_exam_active_ok: "active_ok s \<Longrightarrow> on_exam s k v = Inr s' \<Longrightarrow> active_ok s'"
  by (auto simp: on_exam_def Let_def active_ok_iff split: if_splits sum.splits)

lemma on_key_value_active_ok: "active_ok s \<Longrightarrow> on_key_value s k v = Inr s' \<Longrightarrow> active_ok s'"
  unfolding on_key_value_def on_level_def
  by (auto simp: on_course_active_ok split: if_splits
      dest: update_course_active_ok on_exam_active_ok)
     (auto simp: active_ok_iff)

lemma on_other_active_ok: "active_ok s \<Longrightarrow> on_other s line = Inr s' \<Longrightarrow> active_ok s'"
  by (auto simp: on_other_def split: if_splits dest: update_course_active_ok)

lemma step_active_ok: "active_ok s \<Longrightarrow> step s raw = Inr s' \<Longrightarrow> active_ok s'"
  unfolding step_def Let_def
  by (auto split: if_splits
      dest: on_nextsong_active_ok on_key_value_active_ok on_other_active_ok)
     (auto simp: active_ok_iff)

lemma run_active_ok: "active_ok s \<Longrightarrow> run s raws = Inr s' \<Longrightarrow> active_ok s'"
  by (induction raws arbitrary: s) (auto split: sum.splits dest: step_active_ok)

subsection \<open>The dispatch\<close>

lemma step_key: "line_key raw = Some k \<Longrightarrow> step s raw = on_key_value s k (line_val raw)"
  by (auto simp: line_key_def step_def line_val_def Let_def split: if_splits)

lemma not_startswith_Nil: "p \<noteq> [] \<Longrightarrow> \<not> startswith (py_upper []) p"
  by (auto simp: startswith_def py_upper_def)

lemma nextsong_not_blank: "is_nextsong_line raw \<Longrightarrow> py_strip raw \<noteq> []"
  using not_startswith_Nil [of "ascii ''#NEXTSONG''"]
  by (auto simp: is_nextsong_line_def ascii_def)

lemma step_nextsong: "is_nextsong_line raw \<Longrightarrow> step s raw = on_nextsong s (py_strip raw)"
  using nextsong_not_blank [of raw] by (auto simp: is_nextsong_line_def step_def Let_def)

lemma step_no_key:
  "line_key raw = None \<Longrightarrow> \<not> is_nextsong_line raw \<Longrightarrow> step s raw = Inr s' \<Longrightarrow>
   current_course (snd s') = current_course (snd s) \<and>
   current_exams (snd s') = current_exams (snd s) \<and>
   current_songs (snd s') = current_songs (snd s)"
  by (auto simp: line_key_def is_nextsong_line_def step_def on_other_def update_course_def Let_def
      split: if_splits option.splits)

lemma step_no_key_courses:
  "line_key raw = None \<Longrightarrow> \<not> is_branch_line raw \<Longrightarrow> step s raw = Inr s' \<Longrightarrow> fst s' = fst s"
  by (auto simp: line_key_def is_branch_line_def step_def on_other_def on_nextsong_def Let_def
      split: if_splits sum.splits)

lemma branch_not_directive:
  assumes "startswith line (ascii ''BRANCHSTART'') \<or> startswith line (ascii ''#BRANCHSTART'')"
  shows "line \<noteq> []" "\<not> startswith (py_upper line) (ascii ''#NEXTSONG'')"
    "\<not> startswith (py_upper line) (ascii ''#START'')" "\<not> startswith (py_upper line) (ascii ''#END'')"
proof -
  from assms obtain r where r: "line = 66 # r \<or> line = 35 # 66 # r"
    by (cases line; cases "tl line") (auto simp: startswith_def ascii_def)
  then show "line \<noteq> []" by auto
  from r show "\<not> startswith (py_upper line) (ascii ''#NEXTSONG'')"
    "\<not> startswith (py_upper line) (ascii ''#START'')" "\<not> startswith (py_upper line) (ascii ''#END'')"
    by (auto simp: startswith_def ascii_def py_upper_def upper_char_def)
qed

lemma step_branch: "is_branch_line raw \<Longrightarrow> step s raw = on_other s (py_strip raw)"
  using branch_not_directive [of "py_strip raw"]
  by (auto simp: is_branch_line_def step_def Let_def)

lemma branch_line_no_key: "is_branch_line raw \<Longrightarrow> line_key raw = None"
  by (auto simp: is_branch_line_def line_key_def Let_def)

lemma branch_not_nextsong: "is_branch_line raw \<Longrightarrow> \<not> is_nextsong_line raw"
  using branch_not_directive [of "py_strip raw"]
  by (auto simp: is_branch_line_def is_nextsong_line_def)

lemma nextsong_no_key: "is_nextsong_line raw \<Longrightarrow> line_key raw = None"
  by (auto simp: is_nextsong_line_def line_key_def Let_def)

subsection \<open>The effect of a line that is not a COURSE line\<close>

lemma on_nextsong_effect:
  "on_nextsong s line = Inr s' \<Longrightarrow>
   fst s' = fst s \<and> current_course (snd s') = current_course (snd s) \<and>
   current_exams (snd s') = current_exams (snd s) \<and>
   current_songs (snd s') = current_songs (snd s) @
     (if 4 \<le> length (py_split 44 (py_strip (drop 9 line)))
      then (case song_info (py_split 44 (py_strip (drop 9 line))) of Inl e \<Rightarrow> [] | Inr si \<Rightarrow> [si])
      else [])"
  by (auto simp: on_nextsong_def Let_def split: if_splits sum.splits)

lemma update_course_effect:
  "update_course s f = Inr s' \<Longrightarrow>
   snd s' = snd s \<and>
   (\<exists>c r. current_course (snd s) = Some c \<and> courses (fst s) c = Some r \<and>
      fst s' = (fst s)\<lparr>courses := (courses (fst s))(c \<mapsto> f r)\<rparr>)"
  by (auto simp: update_course_def split: option.splits)

lemma on_key_value_locals:
  "k \<noteq> ascii ''COURSE'' \<Longrightarrow> on_key_value s k v = Inr s' \<Longrightarrow>
   current_course (snd s') = current_course (snd s) \<and>
   current_songs (snd s') = current_songs (snd s) \<and>
   current_exams (snd s') = current_exams (snd s) @
     (if truthy (current_course (snd s)) \<and> k \<in> set exam_keys \<and> 3 \<le> length (py_split 44 v)
      then (case exam_data k (py_split 44 v) of Inl e \<Rightarrow> [] | Inr x \<Rightarrow> [x]) else [])"
  unfolding on_key_value_def on_level_def on_exam_def Let_def
  using exam_keys_not_level
  by (auto split: if_splits sum.splits dest!: update_course_effect)

lemma step_current_course:
  assumes "\<not> is_course_line raw" "step s raw = Inr s'"
  shows "current_course (snd s') = current_course (snd s)"
proof (cases "line_key raw")
  case None
  show ?thesis
  proof (cases "is_nextsong_line raw")
    case True
    then show ?thesis using assms(2) on_nextsong_effect by (simp add: step_nextsong)
  next
    case False
    then show ?thesis using None assms(2) step_no_key by blast
  qed
next
  case (Some k)
  then show ?thesis
    using assms on_key_value_locals [of k s "line_val raw" s']
    by (simp add: step_key is_course_line_def)
qed

lemma step_songs:
  assumes "\<not> is_course_line raw" "step s raw = Inr s'"
  shows "current_songs (snd s') = current_songs (snd s) @ songs_added raw"
proof (cases "line_key raw")
  case None
  show ?thesis
  proof (cases "is_nextsong_line raw")
    case True
    then show ?thesis
      using assms(2) on_nextsong_effect [of s "py_strip raw" s']
      by (simp add: step_nextsong songs_added_def song_parts_def)
  next
    case False
    then show ?thesis using None assms(2) step_no_key [of raw s s'] by (simp add: songs_added_def)
  qed
next
  case (Some k)
  then have "\<not> is_nextsong_line raw" using nextsong_no_key by fastforce
  then show ?thesis
    using Some assms on_key_value_locals [of k s "line_val raw" s']
    by (simp add: step_key is_course_line_def songs_added_def)
qed

lemma step_exams:
  assumes "\<not> is_course_line raw" "step s raw = Inr s'"
  shows "current_exams (snd s') = current_exams (snd s) @
           (if truthy (current_course (snd s)) then exams_added raw else [])"
proof (cases "line_key raw")
  case None
  show ?thesis
  proof (cases "is_nextsong_line raw")
    case True
    then show ?thesis
      using None assms(2) on_nextsong_effect [of s "py_strip raw" s']
      by (simp add: step_nextsong exams_added_def)
  next
    case False
    then show ?thesis using None assms(2) step_no_key [of raw s s'] by (simp add: exams_added_def)
  qed
next
  case (Some k)
  then show ?thesis
    using assms on_key_value_locals [of k s "line_val raw" s']
    by (simp add: step_key is_course_line_def exams_added_def exam_parts_of_def)
qed

lemma on_key_value_courses:
  "k \<noteq> ascii ''COURSE'' \<Longrightarrow> on_key_value s k v = Inr s' \<Longrightarrow>
   courses (fst s') = courses (fst s) \<or>
   (k = ascii ''LEVEL'' \<and> truthy (current_course (snd s)) \<and>
    (\<exists>c r x. current_course (snd s) = Some c \<and> courses (fst s) c = Some r \<and>
       courses (fst s') = (courses (fst s))(c \<mapsto> r\<lparr>stars := x\<rparr>)))"
  unfolding on_key_value_def on_level_def on_exam_def Let_def
  by (auto split: if_splits sum.splits dest!: update_course_effect)

lemma on_other_courses:
  "on_other s line = Inr s' \<Longrightarrow>
   fst s' = fst s \<or>
   (truthy (current_course (snd s)) \<and>
    (startswith line (ascii ''BRANCHSTART'') \<or> startswith line (ascii ''#BRANCHSTART'')) \<and>
    (\<exists>c r. current_course (snd s) = Some c \<and> courses (fst s) c = Some r \<and>
       courses (fst s') = (courses (fst s))(c \<mapsto> r\<lparr>branch := True\<rparr>)))"
  unfolding on_other_def
  by (auto split: if_splits dest!: update_course_effect)

lemma step_other: 
  "line_key raw = None \<Longrightarrow> \<not> is_nextsong_line raw \<Longrightarrow> step s raw = Inr s' \<Longrightarrow>
   fst s' = fst s \<or> (58 \<notin> set (py_strip raw) \<and> on_other s (py_strip raw) = Inr s')"
  by (auto simp: line_key_def is_nextsong_line_def step_def Let_def split: if_splits)

text \<open>What a line that is not a COURSE line does to the records of the courses.\<close>

lemma step_courses:
  assumes "\<not> is_course_line raw" "step s raw = Inr s'"
  shows "courses (fst s') = courses (fst s) \<or>
     (truthy (current_course (snd s)) \<and>
      (\<exists>c r r'. current_course (snd s) = Some c \<and> courses (fst s) c = Some r \<and>
         courses (fst s') = (courses (fst s))(c \<mapsto> r') \<and>
         exams r' = exams r \<and> songs r' = songs r \<and>
         (is_level_line raw \<and> branch r' = branch r \<or>
          is_branch_line raw \<and> stars r' = stars r \<and> branch r' = True)))"
proof (cases "line_key raw")
  case None
  show ?thesis
  proof (cases "is_nextsong_line raw")
    case True
    then show ?thesis using assms(2) on_nextsong_effect by (simp add: step_nextsong)
  next
    case False
    from step_other [OF None False assms(2)] show ?thesis
    proof
      assume "fst s' = fst s"
      then show ?thesis by simp
    next
      assume "58 \<notin> set (py_strip raw) \<and> on_other s (py_strip raw) = Inr s'"
      then consider "fst s' = fst s"
        | c r where "is_branch_line raw" "truthy (current_course (snd s))"
            "current_course (snd s) = Some c" "courses (fst s) c = Some r"
            "courses (fst s') = (courses (fst s))(c \<mapsto> r\<lparr>branch := True\<rparr>)"
        using on_other_courses [of s "py_strip raw" s'] by (auto simp: is_branch_line_def)
      then show ?thesis
      proof cases
        case 1
        then show ?thesis by simp
      next
        case 2
        have "exams (r\<lparr>branch := True\<rparr>) = exams r \<and> songs (r\<lparr>branch := True\<rparr>) = songs r \<and>
            stars (r\<lparr>branch := True\<rparr>) = stars r \<and> branch (r\<lparr>branch := True\<rparr>) = True"
          by simp
        with 2 show ?thesis by blast
      qed
    qed
  qed
next
  case (Some k)
  then have "on_key_value s k (line_val raw) = Inr s'" "k \<noteq> ascii ''COURSE''"
    using assms by (simp_all add: step_key is_course_line_def)
  from on_key_value_courses [OF this(2) this(1)]
  consider "courses (fst s') = courses (fst s)"
    | c r x where "is_level_line raw" "truthy (current_course (snd s))"
        "current_course (snd s) = Some c" "courses (fst s) c = Some r"
        "courses (fst s') = (courses (fst s))(c \<mapsto> r\<lparr>stars := x\<rparr>)"
    using Some by (auto simp: is_level_line_def)
  then show ?thesis
  proof cases
    case 1
    then show ?thesis by simp
  next
    case 2
    have "exams (r\<lparr>stars := x\<rparr>) = exams r \<and> songs (r\<lparr>stars := x\<rparr>) = songs r \<and>
        branch (r\<lparr>stars := x\<rparr>) = branch r"
      by simp
    with 2 show ?thesis by blast
  qed
qed

lemma step_courses_inactive:
  "\<not> is_course_line raw \<Longrightarrow> \<not> truthy (current_course (snd s)) \<Longrightarrow> step s raw = Inr s' \<Longrightarrow>
   courses (fst s') = courses (fst s)"
  using step_courses [of raw s s'] by auto

lemma step_courses_frame:
  "\<not> is_course_line raw \<Longrightarrow> \<not> is_level_line raw \<Longrightarrow> \<not> is_branch_line raw \<Longrightarrow>
   step s raw = Inr s' \<Longrightarrow> courses (fst s') = courses (fst s)"
  using step_courses [of raw s s'] by auto

lemma step_courses_other:
  "\<not> is_course_line raw \<Longrightarrow> current_course (snd s) \<noteq> Some c \<Longrightarrow> step s raw = Inr s' \<Longrightarrow>
   courses (fst s') c = courses (fst s) c"
  using step_courses [of raw s s'] by auto

lemma step_courses_sub:
  "\<not> is_course_line raw \<Longrightarrow> step s raw = Inr s' \<Longrightarrow>
   map_option exams (courses (fst s') c) = map_option exams (courses (fst s) c) \<and>
   map_option songs (courses (fst s') c) = map_option songs (courses (fst s) c)"
  using step_courses [of raw s s'] by auto

subsection \<open>Errors\<close>

lemma song_info_error: "song_info parts = Inl e \<Longrightarrow> e = ValueError"
  by (auto simp: song_info_def split: option.splits if_splits)

lemma song_info_bad:
  "song_info parts = Inl ValueError \<longleftrightarrow>
   (4 < length parts \<and> py_strip (parts ! 4) \<noteq> [] \<and> py_float (py_strip (parts ! 4)) = None) \<or>
   (5 < length parts \<and> py_strip (parts ! 5) \<noteq> [] \<and> py_int (py_strip (parts ! 5)) = None)"
  by (auto simp: song_info_def split: option.splits if_splits)

lemma step_bad_nextsong: "bad_nextsong raw \<Longrightarrow> step s raw = Inl ValueError"
  using song_info_bad [of "song_parts raw"]
  by (auto simp: bad_nextsong_def step_nextsong on_nextsong_def song_parts_def Let_def)

lemma update_course_ok: "active_ok s \<Longrightarrow> truthy (current_course (snd s)) \<Longrightarrow> \<exists>s'. update_course s f = Inr s'"
  by (auto simp: active_ok_iff truthy_def update_course_def split: option.splits)

lemma on_key_value_ok: "active_ok s \<Longrightarrow> \<exists>s'. on_key_value s k v = Inr s'"
  unfolding on_key_value_def on_level_def on_exam_def Let_def
  using exam_data_ok [of k "py_split 44 v"] update_course_ok [of s]
  by (auto split: sum.splits)

lemma step_error:
  assumes "active_ok s" "step s raw = Inl e"
  shows "e = ValueError \<and> bad_nextsong raw"
proof (cases "line_key raw")
  case None
  show ?thesis
  proof (cases "is_nextsong_line raw")
    case True
    then have "on_nextsong s (py_strip raw) = Inl e" using assms(2) by (simp add: step_nextsong)
    then show ?thesis
      using True song_info_error [of "song_parts raw" e] song_info_bad [of "song_parts raw"]
      by (auto simp: on_nextsong_def bad_nextsong_def song_parts_def Let_def
          split: if_splits sum.splits)
  next
    case False
    then show ?thesis
      using None assms update_course_ok [of s "\<lambda>r. r\<lparr>branch := True\<rparr>"]
      by (auto simp: line_key_def is_nextsong_line_def step_def on_other_def Let_def
          split: if_splits)
  qed
next
  case (Some k)
  then show ?thesis using assms on_key_value_ok [of s k "line_val raw"] by (simp add: step_key)
qed

lemma step_ok: "active_ok s \<Longrightarrow> \<not> bad_nextsong raw \<Longrightarrow> \<exists>s'. step s raw = Inr s'"
  using step_error [of s raw] by (cases "step s raw") auto

lemma run_bad:
  "active_ok s \<Longrightarrow> list_ex bad_nextsong raws \<Longrightarrow> run s raws = Inl ValueError"
proof (induction raws arbitrary: s)
  case Nil
  then show ?case by simp
next
  case (Cons raw raws)
  show ?case
  proof (cases "step s raw")
    case (Inl e)
    then show ?thesis using Cons.prems(1) step_error by fastforce
  next
    case (Inr s')
    then have "\<not> bad_nextsong raw" using step_bad_nextsong [of raw s] by auto
    then have "list_ex bad_nextsong raws" using Cons.prems(2) by simp
    then show ?thesis using Inr Cons.IH [of s'] Cons.prems(1) step_active_ok by auto
  qed
qed

lemma run_ok:
  "active_ok s \<Longrightarrow> \<not> list_ex bad_nextsong raws \<Longrightarrow> \<exists>s'. run s raws = Inr s'"
proof (induction raws arbitrary: s)
  case Nil
  then show ?case by simp
next
  case (Cons raw raws)
  then obtain s1 where s1: "step s raw = Inr s1" using step_ok [of s raw] by auto
  then have "active_ok s1" using Cons.prems(1) step_active_ok by blast
  then show ?case using s1 Cons by auto
qed

lemma parse_bad: "list_ex bad_nextsong (py_split 10 txt) \<Longrightarrow> parse txt = Inl ValueError"
  using run_bad [OF active_ok_init, of "py_split 10 txt" "txt"]
  by (simp add: parse_def parse_lines_def)

lemma parse_ok: "\<not> list_ex bad_nextsong (py_split 10 txt) \<Longrightarrow> \<exists>t. parse txt = Inr t"
  using run_ok [OF active_ok_init, of "py_split 10 txt" "txt"]
  by (auto simp: parse_def parse_lines_def)

lemma exam_data_bad:
  "exam_data k parts = Inr x \<Longrightarrow>
   (py_strip (parts ! 1) \<noteq> [] \<and> py_int (py_strip (parts ! 1)) = None) \<or>
   (py_strip (parts ! 2) \<noteq> [] \<and> py_int (py_strip (parts ! 2)) = None) \<Longrightarrow>
   red_pass x = 0 \<and> gold_pass x = 0"
  by (auto simp: exam_data_def Let_def split: option.splits if_splits)

lemma step_exam_line:
  assumes "is_exam_line raw" "truthy (current_course (snd s))"
  shows "step s raw =
     (if 3 \<le> length (exam_parts_of raw)
      then (case exam_data (the (line_key raw)) (exam_parts_of raw) of
              Inl e \<Rightarrow> Inl e
            | Inr x \<Rightarrow> Inr (fst s, (snd s)\<lparr>current_exams := current_exams (snd s) @ [x]\<rparr>))
      else Inr s)"
proof -
  from assms(1) obtain k where k: "line_key raw = Some k" "k \<in> set exam_keys"
    by (auto simp: is_exam_line_def split: option.splits)
  then show ?thesis
    using assms(2) exam_keys_not_level
    by (auto simp: step_key on_key_value_def on_exam_def exam_parts_of_def Let_def)
qed

subsection \<open>Lines before the first COURSE line\<close>

lemma step_exam_song_inactive:
  assumes "is_exam_line raw \<or> is_nextsong_line raw" "\<not> truthy (current_course (snd s))"
    "step s raw = Inr s'"
  shows "fst s' = fst s \<and> current_course (snd s') = current_course (snd s)"
proof (cases "is_nextsong_line raw")
  case True
  then show ?thesis using assms(3) on_nextsong_effect by (simp add: step_nextsong)
next
  case False
  then obtain k where k: "line_key raw = Some k" "k \<in> set exam_keys"
    using assms(1) by (auto simp: is_exam_line_def split: option.splits)
  then show ?thesis
    using assms(2,3) exam_keys_not_level
    by (auto simp: step_key on_key_value_def split: if_splits)
qed

lemma on_key_value_inactive:
  assumes "k \<noteq> ascii ''COURSE''" "\<not> truthy (current_course (snd s))"
    "current_course (snd s2) = current_course (snd s)" "fst s2 = (fst s)\<lparr>tja_text := x\<rparr>"
    "on_key_value s k v = Inr s'"
  shows "\<exists>s2'. on_key_value s2 k v = Inr s2' \<and> fst s2' = (fst s')\<lparr>tja_text := x\<rparr> \<and>
           current_course (snd s2') = current_course (snd s')"
  using assms unfolding on_key_value_def by (cases s2) (auto split: if_splits)

lemma step_inactive:
  assumes "\<not> is_course_line raw" "\<not> truthy (current_course (snd s))"
    "current_course (snd s2) = current_course (snd s)" "fst s2 = (fst s)\<lparr>tja_text := x\<rparr>"
    "step s raw = Inr s'" "\<not> is_nextsong_line raw"
  shows "\<exists>s2'. step s2 raw = Inr s2' \<and> fst s2' = (fst s')\<lparr>tja_text := x\<rparr> \<and>
           current_course (snd s2') = current_course (snd s')"
proof (cases "line_key raw")
  case None
  then show ?thesis
    using assms
    by (cases s2)
      (auto simp: line_key_def is_nextsong_line_def step_def on_other_def Let_def
        split: if_splits)
next
  case (Some k)
  then show ?thesis
    using assms on_key_value_inactive [of k s s2 x "line_val raw" s']
    by (simp add: step_key is_course_line_def)
qed

lemma run_inactive_filter:
  assumes "\<not> list_ex is_course_line raws" "\<not> truthy (current_course (snd s))"
    "current_course (snd s2) = current_course (snd s)" "fst s2 = (fst s)\<lparr>tja_text := x\<rparr>"
    "run s raws = Inr s'"
  shows "\<exists>s2'. run s2 (filter (\<lambda>raw. \<not> is_exam_line raw \<and> \<not> is_nextsong_line raw) raws) = Inr s2' \<and>
           fst s2' = (fst s')\<lparr>tja_text := x\<rparr> \<and>
           current_course (snd s2') = current_course (snd s') \<and>
           current_course (snd s') = current_course (snd s)"
  using assms
proof (induction raws arbitrary: s s2)
  case Nil
  then show ?case by simp
next
  case (Cons raw raws)
  from Cons.prems(5) obtain s1 where s1: "step s raw = Inr s1" "run s1 raws = Inr s'"
    by (auto split: sum.splits)
  have nc: "\<not> is_course_line raw" "\<not> list_ex is_course_line raws"
    using Cons.prems(1) by simp_all
  have cc1: "current_course (snd s1) = current_course (snd s)"
    using step_current_course [OF nc(1) s1(1)] .
  show ?case
  proof (cases "is_exam_line raw \<or> is_nextsong_line raw")
    case True
    then have "fst s1 = fst s"
      using step_exam_song_inactive [OF True Cons.prems(2) s1(1)] by simp
    then show ?thesis
      using Cons.IH [of s1 s2] True nc(2) s1(2) cc1 Cons.prems(2,3,4) by auto
  next
    case False
    then obtain s2' where s2': "step s2 raw = Inr s2'" "fst s2' = (fst s1)\<lparr>tja_text := x\<rparr>"
      "current_course (snd s2') = current_course (snd s1)"
      using step_inactive [OF nc(1) Cons.prems(2,3,4) s1(1)] by blast
    then show ?thesis
      using Cons.IH [of s1 s2'] False nc(2) s1(2) cc1 Cons.prems(2) by auto
  qed
qed

lemma run_inactive_courses:
  "\<not> list_ex is_course_line raws \<Longrightarrow> \<not> truthy (current_course (snd s)) \<Longrightarrow>
   run s raws = Inr s' \<Longrightarrow> courses (fst s') = courses (fst s)"
proof (induction raws arbitrary: s)
  case Nil
  then show ?case by simp
next
  case (Cons raw raws)
  from Cons.prems(3) obtain s1 where s1: "step s raw = Inr s1" "run s1 raws = Inr s'"
    by (auto split: sum.splits)
  have nc: "\<not> is_course_line raw" "\<not> list_ex is_course_line raws"
    using Cons.prems(1) by simp_all
  have "current_course (snd s1) = current_course (snd s)"
    using step_current_course [OF nc(1) s1(1)] .
  moreover have "courses (fst s1) = courses (fst s)"
    using step_courses_inactive [OF nc(1) Cons.prems(2) s1(1)] .
  ultimately show ?case using Cons.IH [of s1] nc(2) s1(2) Cons.prems(2) by simp
qed

lemma commit_inactive: "\<not> truthy (current_course l) \<Longrightarrow> commit t l = t"
  by (auto simp: commit_def truthy_def split: option.splits)

lemma step_blank: "step s [] = Inr s"
  by (simp add: step_def py_strip_def py_lstrip_def py_rstrip_def)

lemma run_split_join:
  "\<forall>l \<in> set ls. 10 \<notin> set l \<Longrightarrow> run s (py_split 10 (py_join 10 ls)) = run s ls"
  by (cases "ls = []") (simp_all add: step_blank py_split_join)

lemma run_drop_lines:
  "run s (py_split 10 (drop_exam_song_lines txt)) =
   run s (filter (\<lambda>raw. \<not> is_exam_line raw \<and> \<not> is_nextsong_line raw) (py_split 10 txt))"
  unfolding drop_exam_song_lines_def
  by (rule run_split_join) (auto dest: py_split_no_sep)

subsection \<open>Runs\<close>

lemma run_append:
  "run s (xs @ ys) = (case run s xs of Inl e \<Rightarrow> Inl e | Inr s1 \<Rightarrow> run s1 ys)"
  by (induction xs arbitrary: s) (auto split: sum.splits)

lemma run_append_Inr:
  "run s (xs @ ys) = Inr s' \<longleftrightarrow> (\<exists>s1. run s xs = Inr s1 \<and> run s1 ys = Inr s')"
  by (auto simp: run_append split: sum.splits)

lemma run_Cons_Inr:
  "run s (x # xs) = Inr s' \<longleftrightarrow> (\<exists>s1. step s x = Inr s1 \<and> run s1 xs = Inr s')"
  by (auto split: sum.splits)

text \<open>A run of lines without a COURSE line.\<close>

lemma run_block:
  assumes "\<not> list_ex is_course_line raws" "run s raws = Inr s'"
  shows "current_course (snd s') = current_course (snd s)"
    and "current_songs (snd s') = current_songs (snd s) @ concat (map songs_added raws)"
    and "current_exams (snd s') = current_exams (snd s) @
           (if truthy (current_course (snd s)) then concat (map exams_added raws) else [])"
    and "map_option exams (courses (fst s') c) = map_option exams (courses (fst s) c)"
    and "map_option songs (courses (fst s') c) = map_option songs (courses (fst s) c)"
  using assms
proof (induction raws arbitrary: s)
  case Nil
  {
    case 1 then show ?case by simp
  next
    case 2 then show ?case by simp
  next
    case 3 then show ?case by simp
  next
    case 4 then show ?case by simp
  next
    case 5 then show ?case by simp
  }
next
  case (Cons raw raws)
  {
    case 1
    then obtain s1 where s1: "step s raw = Inr s1" "run s1 raws = Inr s'"
      by (auto split: sum.splits)
    from 1 have nc: "\<not> is_course_line raw" "\<not> list_ex is_course_line raws" by simp_all
    show ?case using Cons.IH(1) [OF nc(2) s1(2)] step_current_course [OF nc(1) s1(1)] by simp
  next
    case 2
    then obtain s1 where s1: "step s raw = Inr s1" "run s1 raws = Inr s'"
      by (auto split: sum.splits)
    from 2 have nc: "\<not> is_course_line raw" "\<not> list_ex is_course_line raws" by simp_all
    show ?case using Cons.IH(2) [OF nc(2) s1(2)] step_songs [OF nc(1) s1(1)] by simp
  next
    case 3
    then obtain s1 where s1: "step s raw = Inr s1" "run s1 raws = Inr s'"
      by (auto split: sum.splits)
    from 3 have nc: "\<not> is_course_line raw" "\<not> list_ex is_course_line raws" by simp_all
    show ?case
      using Cons.IH(3) [OF nc(2) s1(2)] step_exams [OF nc(1) s1(1)]
        step_current_course [OF nc(1) s1(1)]
      by simp
  next
    case 4
    then obtain s1 where s1: "step s raw = Inr s1" "run s1 raws = Inr s'"
      by (auto split: sum.splits)
    from 4 have nc: "\<not> is_course_line raw" "\<not> list_ex is_course_line raws" by simp_all
    show ?case using Cons.IH(4) [OF nc(2) s1(2)] step_courses_sub [OF nc(1) s1(1)] by simp
  next
    case 5
    then obtain s1 where s1: "step s raw = Inr s1" "run s1 raws = Inr s'"
      by (auto split: sum.splits)
    from 5 have nc: "\<not> is_course_line raw" "\<not> list_ex is_course_line raws" by simp_all
    show ?case using Cons.IH(5) [OF nc(2) s1(2)] step_courses_sub [OF nc(1) s1(1)] by simp
  }
qed

lemma run_block_frame:
  "\<not> list_ex is_course_line raws \<Longrightarrow> \<not> list_ex is_level_line raws \<Longrightarrow>
   \<not> list_ex is_branch_line raws \<Longrightarrow> run s raws = Inr s' \<Longrightarrow>
   courses (fst s') = courses (fst s)"
proof (induction raws arbitrary: s)
  case Nil
  then show ?case by simp
next
  case (Cons raw raws)
  then obtain s1 where s1: "step s raw = Inr s1" "run s1 raws = Inr s'"
    by (auto split: sum.splits)
  have "courses (fst s1) = courses (fst s)"
    using step_courses_frame [of raw s s1] Cons.prems s1(1) by simp
  then show ?case using Cons.IH [of s1] Cons.prems s1(2) by simp
qed

subsection \<open>COURSE lines\<close>

lemma step_course: "is_course_line raw \<Longrightarrow> step s raw = Inr (on_course s (line_val raw))"
  by (simp add: is_course_line_def step_key on_key_value_def ascii_def)

lemma on_course_locals:
  "snd (on_course s v) =
     (snd s)\<lparr>current_course := course_map (py_upper (py_strip v)), current_exams := [],
       current_songs := []\<rparr>"
  by (simp add: on_course_def Let_def)

lemma commit_courses:
  "courses (commit t l) c =
     (if current_course l = Some c \<and> c \<noteq> []
      then map_option
             (\<lambda>r. r\<lparr>exams := (if current_exams l \<noteq> [] then Some (current_exams l) else exams r),
                    songs := (if current_songs l \<noteq> [] then Some (current_songs l) else songs r)\<rparr>)
             (courses t c)
      else courses t c)"
  by (auto simp: commit_def split: option.splits)

lemma commit_stars_branch:
  "map_option stars (courses (commit t l) c) = map_option stars (courses t c)"
  "map_option branch (courses (commit t l) c) = map_option branch (courses t c)"
  by (auto simp: commit_courses option.map_comp comp_def)

lemma on_course_courses:
  "courses (fst (on_course s v)) c =
     (case courses (commit (fst s) (snd s)) c of
        Some r \<Rightarrow> Some r
      | None \<Rightarrow>
          (if course_map (py_upper (py_strip v)) = Some c
           then Some \<lparr>stars = None, branch = False, exams = None, songs = None\<rparr>
           else None))"
  by (auto simp: on_course_def Let_def split: option.splits dest: course_map_not_Nil)

lemma course_of_line_Some:
  "course_of_line raw = Some c \<Longrightarrow> is_course_line raw \<and> c \<noteq> []"
  by (auto simp: course_of_line_def split: if_splits dest: course_map_not_Nil)

text \<open>The state after a COURSE line that names a course and the lines of its block.\<close>

lemma course_block:
  assumes "course_of_line cl = Some c" "step s1 cl = Inr s2"
    "\<not> list_ex is_course_line block" "run s2 block = Inr s3"
  shows "current_course (snd s3) = Some c" "c \<noteq> []"
    and "current_exams (snd s3) = concat (map exams_added block)"
    and "current_songs (snd s3) = concat (map songs_added block)"
    and "\<exists>r2 r3. courses (fst s2) c = Some r2 \<and> courses (fst s3) c = Some r3 \<and>
           exams r3 = exams r2 \<and> songs r3 = songs r2"
proof -
  have cl: "is_course_line cl" "c \<noteq> []" using course_of_line_Some [OF assms(1)] by simp_all
  then have s2: "s2 = on_course s1 (line_val cl)" using assms(2) by (simp add: step_course)
  have cc: "course_map (py_upper (py_strip (line_val cl))) = Some c"
    using assms(1) cl(1) by (simp add: course_of_line_def)
  have l2: "current_course (snd s2) = Some c" "current_exams (snd s2) = []"
    "current_songs (snd s2) = []"
    using cc by (simp_all add: s2 on_course_locals)
  have t: "truthy (current_course (snd s2))" using l2(1) cl(2) by (simp add: truthy_def)
  show "current_course (snd s3) = Some c" using run_block(1) [OF assms(3,4)] l2(1) by simp
  show "c \<noteq> []" by (rule cl(2))
  show "current_exams (snd s3) = concat (map exams_added block)"
    using run_block(3) [OF assms(3,4)] l2(2) t by simp
  show "current_songs (snd s3) = concat (map songs_added block)"
    using run_block(2) [OF assms(3,4)] l2(3) by simp
  obtain r2 where r2: "courses (fst s2) c = Some r2"
    using cc by (cases "courses (commit (fst s1) (snd s1)) c") (auto simp: s2 on_course_courses)
  moreover obtain r3 where "courses (fst s3) c = Some r3" "exams r3 = exams r2" "songs r3 = songs r2"
    using run_block(4,5) [OF assms(3,4), of c] r2 by auto
  ultimately show "\<exists>r2 r3. courses (fst s2) c = Some r2 \<and> courses (fst s3) c = Some r3 \<and>
           exams r3 = exams r2 \<and> songs r3 = songs r2"
    by blast
qed

text \<open>The commit that ends the block, at the end of the input or at the next COURSE line.\<close>

lemma course_block_commit:
  assumes "course_of_line cl = Some c" "step s1 cl = Inr s2"
    "\<not> list_ex is_course_line block" "run s2 block = Inr s3" "courses (fst s2) c = Some r2"
  shows "\<exists>r. courses (commit (fst s3) (snd s3)) c = Some r \<and>
           exams r = (if concat (map exams_added block) = [] then exams r2
                      else Some (concat (map exams_added block))) \<and>
           songs r = (if concat (map songs_added block) = [] then songs r2
                      else Some (concat (map songs_added block)))"
proof -
  note b = course_block [OF assms(1-4)]
  from b(5) assms(5) obtain r3 where r3: "courses (fst s3) c = Some r3"
    "exams r3 = exams r2" "songs r3 = songs r2"
    by auto
  show ?thesis
    using b(1-4) r3 by (simp add: commit_courses)
qed

lemma on_course_keeps:
  "courses (fst s) c = Some r \<Longrightarrow>
   courses (fst (on_course s v)) c = courses (commit (fst s) (snd s)) c"
  using commit_courses_None [of "fst s" "snd s" c]
  by (cases "courses (commit (fst s) (snd s)) c") (auto simp: on_course_courses)

lemma on_course_stars_branch:
  assumes "course_map (py_upper (py_strip v)) \<noteq> Some c \<or> courses (fst s) c \<noteq> None"
  shows "map_option stars (courses (fst (on_course s v)) c) = map_option stars (courses (fst s) c)"
    and "map_option branch (courses (fst (on_course s v)) c) = map_option branch (courses (fst s) c)"
proof -
  have "courses (fst (on_course s v)) c = courses (commit (fst s) (snd s)) c"
    using assms commit_courses_None [of "fst s" "snd s" c]
    by (cases "courses (commit (fst s) (snd s)) c") (auto simp: on_course_courses)
  then show "map_option stars (courses (fst (on_course s v)) c) = map_option stars (courses (fst s) c)"
    and "map_option branch (courses (fst (on_course s v)) c) = map_option branch (courses (fst s) c)"
    by (simp_all add: commit_stars_branch)
qed

lemma step_other_course:
  assumes "current_course (snd s) \<noteq> Some c" "course_of_line raw \<noteq> Some c" "step s raw = Inr s'"
  shows "map_option stars (courses (fst s') c) = map_option stars (courses (fst s) c)"
    and "map_option branch (courses (fst s') c) = map_option branch (courses (fst s) c)"
    and "current_course (snd s') \<noteq> Some c"
proof -
  show "map_option stars (courses (fst s') c) = map_option stars (courses (fst s) c)"
  proof (cases "is_course_line raw")
    case True
    then show ?thesis
      using assms(2,3) on_course_stars_branch(1) [of "line_val raw" c s]
      by (simp add: step_course course_of_line_def)
  next
    case False
    then show ?thesis using step_courses_other [OF False assms(1,3)] by simp
  qed
  show "map_option branch (courses (fst s') c) = map_option branch (courses (fst s) c)"
  proof (cases "is_course_line raw")
    case True
    then show ?thesis
      using assms(2,3) on_course_stars_branch(2) [of "line_val raw" c s]
      by (simp add: step_course course_of_line_def)
  next
    case False
    then show ?thesis using step_courses_other [OF False assms(1,3)] by simp
  qed
  show "current_course (snd s') \<noteq> Some c"
  proof (cases "is_course_line raw")
    case True
    then show ?thesis
      using assms(2,3) by (auto simp: step_course course_of_line_def on_course_locals)
  next
    case False
    then show ?thesis using step_current_course [OF False assms(3)] assms(1) by simp
  qed
qed

lemma run_other_course:
  assumes "current_course (snd s) \<noteq> Some c"
    "\<not> list_ex (\<lambda>raw. course_of_line raw = Some c) raws" "run s raws = Inr s'"
  shows "map_option stars (courses (fst s') c) = map_option stars (courses (fst s) c) \<and>
         map_option branch (courses (fst s') c) = map_option branch (courses (fst s) c)"
  using assms
proof (induction raws arbitrary: s)
  case Nil
  then show ?case by simp
next
  case (Cons raw raws)
  then obtain s1 where s1: "step s raw = Inr s1" "run s1 raws = Inr s'"
    using run_Cons_Inr by blast
  have n: "course_of_line raw \<noteq> Some c" "\<not> list_ex (\<lambda>raw. course_of_line raw = Some c) raws"
    using Cons.prems(2) by simp_all
  note st = step_other_course [OF Cons.prems(1) n(1) s1(1)]
  show ?case using Cons.IH [OF st(3) n(2) s1(2)] st(1,2) by simp
qed

text \<open>Any run keeps the stars and the branch flag of a course that is not touched.\<close>

lemma run_rest_stars_branch:
  assumes "current_course (snd s3) = Some c" "courses (fst s3) c = Some r3"
    "rest = [] \<or> is_course_line (hd rest)"
    "\<not> list_ex (\<lambda>raw. course_of_line raw = Some c) rest" "run s3 rest = Inr s4"
  shows "\<exists>r. courses (commit (fst s4) (snd s4)) c = Some r \<and> stars r = stars r3 \<and> branch r = branch r3"
proof (cases rest)
  case Nil
  then have "s4 = s3" using assms(5) by simp
  then show ?thesis
    using assms(2) commit_stars_branch [of "fst s3" "snd s3" c] by auto
next
  case (Cons nl rest')
  then have nl: "is_course_line nl" "course_of_line nl \<noteq> Some c"
    "\<not> list_ex (\<lambda>raw. course_of_line raw = Some c) rest'"
    using assms(3,4) by simp_all
  obtain s5 where s5: "step s3 nl = Inr s5" "run s5 rest' = Inr s4"
    using assms(5) Cons run_Cons_Inr by blast
  have e: "s5 = on_course s3 (line_val nl)" using s5(1) nl(1) by (simp add: step_course)
  have "current_course (snd s5) \<noteq> Some c"
    using nl(1,2) by (simp add: e on_course_locals course_of_line_def)
  from run_other_course [OF this nl(3) s5(2)]
  have "map_option stars (courses (fst s4) c) = map_option stars (courses (fst s5) c)"
    "map_option branch (courses (fst s4) c) = map_option branch (courses (fst s5) c)"
    by simp_all
  moreover have "map_option stars (courses (fst s5) c) = map_option stars (courses (fst s3) c)"
    "map_option branch (courses (fst s5) c) = map_option branch (courses (fst s3) c)"
    using on_course_stars_branch [of "line_val nl" c s3] assms(2) by (simp_all add: e)
  ultimately show ?thesis
    using assms(2) commit_stars_branch [of "fst s4" "snd s4" c] by auto
qed

lemma step_unrecognized:
  assumes "current_course (snd s) = None" "course_of_line raw = None" "step s raw = Inr s'"
  shows "courses (fst s') = courses (fst s) \<and> current_course (snd s') = None"
proof (cases "is_course_line raw")
  case True
  then have "s' = on_course s (line_val raw)" "course_map (py_upper (py_strip (line_val raw))) = None"
    using assms(2,3) by (simp_all add: step_course course_of_line_def)
  then show ?thesis
    using assms(1) by (simp add: on_course_def Let_def commit_inactive truthy_def)
next
  case False
  then show ?thesis
    using step_courses_inactive [OF False _ assms(3)] step_current_course [OF False assms(3)] assms(1)
    by (simp add: truthy_def)
qed

lemma run_unrecognized:
  "current_course (snd s) = None \<Longrightarrow> \<not> list_ex (\<lambda>raw. course_of_line raw \<noteq> None) raws \<Longrightarrow>
   run s raws = Inr s' \<Longrightarrow> courses (fst s') = courses (fst s) \<and> current_course (snd s') = None"
proof (induction raws arbitrary: s)
  case Nil
  then show ?case by simp
next
  case (Cons raw raws)
  then obtain s1 where s1: "step s raw = Inr s1" "run s1 raws = Inr s'"
    using run_Cons_Inr by blast
  have "courses (fst s1) = courses (fst s) \<and> current_course (snd s1) = None"
    using step_unrecognized [OF Cons.prems(1) _ s1(1)] Cons.prems(2) by simp
  then show ?case using Cons.IH [of s1] Cons.prems(2) s1(2) by simp
qed

lemma level_key_distinct:
  "ascii ''LEVEL'' \<noteq> ascii ''TITLE''" "ascii ''LEVEL'' \<noteq> ascii ''TITLEJA''"
  "ascii ''LEVEL'' \<noteq> ascii ''SUBTITLE''" "ascii ''LEVEL'' \<noteq> ascii ''SUBTITLEJA''"
  "ascii ''LEVEL'' \<noteq> ascii ''WAVE''" "ascii ''LEVEL'' \<noteq> ascii ''OFFSET''"
  "ascii ''LEVEL'' \<noteq> ascii ''COURSE''"
  by (simp_all add: ascii_def)

lemma step_dropped:
  assumes "current_course (snd s) = None" "is_level_line raw \<or> is_exam_line raw \<or> is_branch_line raw"
  shows "step s raw = Inr s"
proof -
  have off: "\<not> truthy (current_course (snd s))" using assms(1) by (simp add: truthy_def)
  consider "is_branch_line raw" | "line_key raw = Some (ascii ''LEVEL'')"
    | k where "line_key raw = Some k" "k \<in> set exam_keys"
    using assms(2) by (auto simp: is_level_line_def is_exam_line_def split: option.splits)
  then show ?thesis
  proof cases
    case 1
    then show ?thesis using off by (simp add: step_branch on_other_def)
  next
    case 2
    then show ?thesis
      using off level_key_distinct exam_keys_not_level(1)
      by (simp add: step_key on_key_value_def)
  next
    case 3
    then show ?thesis
      using off exam_keys_not_level
      by (auto simp: step_key on_key_value_def split: if_splits)
  qed
qed

lemma step_branch_only:
  assumes "courses (fst s) c = Some r" "step s raw = Inr s'" "courses (fst s') c = Some r'"
    "branch r' \<noteq> branch r"
  shows "is_branch_line raw \<and> current_course (snd s) = Some c"
proof (cases "is_course_line raw")
  case True
  then have "s' = on_course s (line_val raw)" using assms(2) by (simp add: step_course)
  then have "courses (fst s') c = courses (commit (fst s) (snd s)) c"
    using on_course_keeps [OF assms(1)] by simp
  then have "branch r' = branch r"
    using commit_stars_branch(2) [of "fst s" "snd s" c] assms(1,3) by auto
  then show ?thesis using assms(4) by simp
next
  case False
  from step_courses [OF False assms(2)] show ?thesis
    using assms(1,3,4) by (auto split: if_splits)
qed

lemma step_branch_sets:
  assumes "current_course (snd s) = Some c" "c \<noteq> []" "courses (fst s) c = Some r"
    "is_branch_line raw"
  shows "step s raw = Inr ((fst s)\<lparr>courses := (courses (fst s))(c \<mapsto> r\<lparr>branch := True\<rparr>)\<rparr>, snd s)"
  using assms
  by (auto simp: step_branch on_other_def update_course_def truthy_def is_branch_line_def)

subsection \<open>Stripping\<close>

lemma py_rstrip_Nil_iff: "py_rstrip w = [] \<longleftrightarrow> (\<forall>x \<in> set w. py_isspace x)"
  by (simp add: py_rstrip_def dropWhile_eq_Nil_conv)

lemma py_rstrip_Cons:
  "py_rstrip (a # w) = (if py_rstrip w = [] \<and> py_isspace a then [] else a # py_rstrip w)"
  by (auto simp: py_rstrip_def dropWhile_append dropWhile_eq_Nil_conv)

lemma py_rstrip_Nil: "py_rstrip [] = []"
  by (simp add: py_rstrip_def)

lemma py_rstrip_idem: "py_rstrip (py_rstrip v) = py_rstrip v"
  by (induction v) (auto simp: py_rstrip_Cons py_rstrip_Nil)

lemma py_lstrip_rstrip: "py_lstrip (py_rstrip v) = py_rstrip (py_lstrip v)"
proof (induction v)
  case Nil
  then show ?case by (simp add: py_lstrip_def py_rstrip_def)
next
  case (Cons a w)
  show ?case
  proof (cases "py_isspace a")
    case True
    then have "py_lstrip (py_rstrip (a # w)) = py_lstrip (py_rstrip w)"
      by (simp add: py_rstrip_Cons) (simp add: py_lstrip_def)
    then show ?thesis using True Cons.IH by (simp add: py_lstrip_def)
  next
    case False
    then show ?thesis by (simp add: py_rstrip_Cons py_lstrip_def)
  qed
qed

lemma py_strip_rstrip: "py_strip (py_rstrip v) = py_strip v"
  by (simp add: py_strip_def py_lstrip_rstrip py_rstrip_idem)

lemma py_strip_Cons: "\<not> py_isspace a \<Longrightarrow> py_strip (a # w) = a # py_rstrip w"
  by (simp add: py_strip_def py_lstrip_def py_rstrip_Cons)

lemma py_rstrip_Cons_nonspace: "\<not> py_isspace a \<Longrightarrow> py_rstrip (a # w) = a # py_rstrip w"
  by (simp add: py_rstrip_Cons)

lemma strip_course_line: "py_strip (ascii ''COURSE:'' @ v) = ascii ''COURSE:'' @ py_rstrip v"
  by (simp add: ascii_def py_strip_Cons py_rstrip_Cons_nonspace py_isspace_def)

lemma course_line_key: "line_key (ascii ''COURSE:'' @ v) = Some (ascii ''COURSE'')"
  unfolding line_key_def strip_course_line
  by (simp add: ascii_def startswith_def py_upper_def upper_char_def split_once_def
      py_strip_Cons py_rstrip_Cons_nonspace py_isspace_def py_rstrip_def)

lemma course_line_val: "line_val (ascii ''COURSE:'' @ v) = py_strip v"
  unfolding line_val_def strip_course_line
  by (simp add: ascii_def split_once_def py_strip_rstrip)

subsection \<open>Upper case\<close>

lemma upper_char_capital: "65 \<le> d \<Longrightarrow> d \<le> 90 \<Longrightarrow> upper_char d = [d]"
  by (simp add: upper_char_def)

lemma upper_char_idem: "concat (map upper_char (upper_char c)) = upper_char c"
proof (cases "97 \<le> c \<and> c \<le> 122")
  case True
  then have "upper_char c = [c - 32]" by (simp add: upper_char_def)
  moreover have "upper_char (c - 32) = [c - 32]"
    using True by (intro upper_char_capital) arith+
  ultimately show ?thesis by simp
next
  case False
  show ?thesis
  proof (cases "c \<in> {223, 305, 329, 383, 496, 7830, 7831, 7832, 7833, 7834, 64256, 64257, 64258,
                      64259, 64260, 64261, 64262}")
    case True
    then show ?thesis by (auto simp: upper_char_def)
  next
    case other: False
    then have "upper_char c = [c]" using False by (auto simp: upper_char_def)
    then show ?thesis by simp
  qed
qed

lemma py_upper_idem: "py_upper (py_upper v) = py_upper v"
  by (induction v) (simp_all add: py_upper_def upper_char_idem)

lemma py_strip_idem: "py_strip (py_strip v) = py_strip v"
  by (metis py_strip_def py_lstrip_rstrip py_rstrip_idem py_lstrip_def dropWhile_idem)

lemma step_course_token:
  "step s (ascii ''COURSE:'' @ v) = Inr (on_course s (py_strip v))"
  by (simp add: step_course is_course_line_def course_line_key course_line_val)

section \<open>Paths and extensions\<close>

text \<open>The last index of a character, and the text after the last slash.\<close>

lemma rfind_absent: "c \<notin> set p \<Longrightarrow> rfind c p = - 1"
  by (simp add: rfind_def)

lemma rfind_last: "c \<notin> set b \<Longrightarrow> rfind c (a @ c # b) = int (length a)"
proof -
  assume "c \<notin> set b"
  then have "takeWhile (\<lambda>x. x \<noteq> c) (rev b @ c # rev a) = rev b"
    by (auto simp: takeWhile_append)
  then show ?thesis by (simp add: rfind_def)
qed

lemma split_last:
  assumes "c \<in> set p"
  shows "\<exists>a b. p = a @ c # b \<and> c \<notin> set b"
  using assms split_list_last [of c p] by blast

lemma nat_int_Suc: "nat (int n + 1) = Suc n"
  by arith

lemma basename_dir:
  assumes "dir = [] \<or> last dir = 47" "47 \<notin> set rest"
  shows "basename (dir @ rest) = rest"
proof (cases "dir = []")
  case True
  then show ?thesis using assms(2) by (simp add: basename_def rfind_absent)
next
  case False
  then have "dir = butlast dir @ [47]"
    using assms(1) append_butlast_last_id [of dir] by simp
  then obtain d where d: "dir = d @ [47]" by blast
  have "rfind 47 (d @ 47 # rest) = int (length d)"
    using assms(2) by (rule rfind_last)
  then show ?thesis by (simp add: basename_def d nat_int_Suc)
qed

lemma basename_slash_tail: "47 \<notin> set b \<Longrightarrow> basename (a @ 47 # b) = b"
  using basename_dir [of "a @ [47]" b] by simp

lemma basename_no_slash: "47 \<notin> set (basename p)"
proof (cases "47 \<in> set p")
  case True
  from split_last [OF True] show ?thesis
    by (elim exE conjE) (simp only: basename_slash_tail not_False_eq_True)
next
  case False
  then show ?thesis by (simp add: basename_def rfind_absent)
qed

text \<open>The loop of \<open>splitext\<close> looks for a character other than the dot.\<close>

lemma splitext_loop_iff:
  "d \<le> length p \<Longrightarrow> splitext_loop p i d \<longleftrightarrow> list_ex (\<lambda>c. c \<noteq> 46) (take (d - i) (drop i p))"
proof (induction p i d rule: splitext_loop.induct)
  case (1 p i d)
  show ?case
  proof (cases "i < d")
    case False
    then show ?thesis by (simp add: splitext_loop.simps [of p i d])
  next
    case True
    then obtain x xs where x: "drop i p = x # xs"
      using "1.prems" by (cases "drop i p") auto
    then have xs: "drop (i + 1) p = xs" by (metis drop_Suc tl_drop list.sel(3) Suc_eq_plus1)
    obtain k where k: "d - i = Suc k" "d - (i + 1) = k" using True by (cases "d - i") auto
    show ?thesis
    proof (cases "x = 46")
      case True
      then have "splitext_loop p i d = splitext_loop p (i + 1) d"
        using \<open>i < d\<close> x by (simp add: splitext_loop.simps [of p i d])
      also have "\<dots> = list_ex (\<lambda>c. c \<noteq> 46) (take (d - (i + 1)) (drop (i + 1) p))"
        using "1.IH" [OF \<open>i < d\<close>] x True "1.prems" by simp
      finally show ?thesis using x xs k True by simp
    next
      case False
      then show ?thesis
        using \<open>i < d\<close> x k by (simp add: splitext_loop.simps [of p i d])
    qed
  qed
qed

text \<open>The extension of a name without a slash, at its last dot.\<close>

lemma splitext_dot:
  assumes "47 \<notin> set stem" "47 \<notin> set x" "46 \<notin> set x"
  shows "splitext (stem @ 46 # x) =
     (if list_ex (\<lambda>c. c \<noteq> 46) stem then (stem, 46 # x) else (stem @ 46 # x, []))"
proof -
  have s: "rfind 47 (stem @ 46 # x) = - 1" using assms(1,2) by (simp add: rfind_absent)
  have d: "rfind 46 (stem @ 46 # x) = int (length stem)" using assms(3) by (rule rfind_last)
  have "splitext_loop (stem @ 46 # x) 0 (length stem) = list_ex (\<lambda>c. c \<noteq> 46) stem"
    by (simp add: splitext_loop_iff)
  then show ?thesis by (simp add: splitext_def s d Let_def)
qed

lemma splitext_no_dot: "46 \<notin> set p \<Longrightarrow> splitext p = (p, [])"
proof -
  assume a: "46 \<notin> set p"
  have "length (takeWhile (\<lambda>x. x \<noteq> 47) (rev p)) \<le> length p"
    using length_takeWhile_le [of "\<lambda>x. x \<noteq> 47" "rev p"] by simp
  then have "rfind 47 p \<ge> - 1" by (simp add: rfind_def)
  then show ?thesis using a by (simp add: splitext_def rfind_absent Let_def)
qed

text \<open>Lower-casing keeps a text non-empty.\<close>

lemma lower_char_not_Nil: "lower_char c \<noteq> []"
  by (auto simp: lower_char_def split: option.splits prod.splits)

lemma lower_from_Nil_iff: "lower_from seen x = [] \<longleftrightarrow> x = []"
  by (cases x) (simp_all add: lower_char_not_Nil)

lemma py_lower_Nil_iff: "py_lower x = [] \<longleftrightarrow> x = []"
  by (simp add: py_lower_def lower_from_Nil_iff)

text \<open>The music type, case by case.\<close>

lemma file_ext_None: "file_ext None = ascii ''mp3''"
  by (simp add: file_ext_def)

lemma file_ext_dot:
  assumes "dir = [] \<or> last dir = 47" "47 \<notin> set stem" "47 \<notin> set x" "46 \<notin> set x" "x \<noteq> []"
    "list_ex (\<lambda>c. c \<noteq> 46) stem"
  shows "file_ext (Some (dir @ stem @ [46] @ x)) = py_lower x"
proof -
  have "basename (dir @ stem @ [46] @ x) = stem @ 46 # x"
    using basename_dir [OF assms(1), of "stem @ 46 # x"] assms(2,3) by simp
  moreover have "dropWhile (\<lambda>c. c = 46) x = x"
    using assms(4,5) by (cases x) auto
  ultimately show ?thesis
    using assms splitext_dot [OF assms(2,3,4)] by (simp add: file_ext_def py_lower_Nil_iff)
qed

lemma file_ext_other:
  assumes "\<not> (\<exists>stem x. basename w = stem @ [46] @ x \<and> 46 \<notin> set x \<and> x \<noteq> [] \<and>
              list_ex (\<lambda>c. c \<noteq> 46) stem)"
  shows "file_ext (Some w) = ascii ''mp3''"
proof (cases "46 \<in> set (basename w)")
  case False
  then show ?thesis by (simp add: file_ext_def splitext_no_dot)
next
  case True
  from split_last [OF True] obtain stem x where sx: "basename w = stem @ 46 # x" "46 \<notin> set x"
    by (elim exE conjE)
  have ns: "47 \<notin> set stem" "47 \<notin> set x"
    using basename_no_slash [of w] sx(1) by auto
  have "\<not> (basename w = stem @ [46] @ x \<and> 46 \<notin> set x \<and> x \<noteq> [] \<and>
           list_ex (\<lambda>c. c \<noteq> 46) stem)"
    using assms by blast
  then have "x = [] \<or> \<not> list_ex (\<lambda>c. c \<noteq> 46) stem" using sx by simp
  then show ?thesis
  proof
    assume "x = []"
    then show ?thesis
      using sx splitext_dot [OF ns sx(2)] by (simp add: file_ext_def py_lower_def)
  next
    assume "\<not> list_ex (\<lambda>c. c \<noteq> 46) stem"
    then show ?thesis
      using sx splitext_dot [OF ns sx(2)] by (simp add: file_ext_def)
  qed
qed

text \<open>Every path is a directory part, empty or ending in a slash, before its basename.\<close>

lemma basename_split: "\<exists>dir. w = dir @ basename w \<and> (dir = [] \<or> last dir = 47)"
proof (cases "47 \<in> set w")
  case True
  from split_last [OF True] obtain a b where ab: "w = a @ 47 # b" "47 \<notin> set b"
    by (elim exE conjE)
  have "basename w = b" unfolding ab(1) using ab(2) by (rule basename_slash_tail)
  then have "w = (a @ [47]) @ basename w \<and> last (a @ [47]) = 47" using ab(1) by simp
  then show ?thesis by blast
next
  case False
  then have "basename w = w" by (simp add: basename_def rfind_absent)
  then show ?thesis by simp
qed

lemma music_type_file_ext: "music_type (to_mongo t song_id ns) = file_ext (wave t)"
  by (simp add: to_mongo_def)

text \<open>The two charts of the examples.\<close>

lemma parse_wave_example:
  "\<exists>t. parse (ascii ''WAVE:song.OGG'') = Inr t \<and> wave t = Some (ascii ''song.OGG'')"
proof -
  have "case parse (ascii ''WAVE:song.OGG'') of Inl e \<Rightarrow> False
        | Inr t \<Rightarrow> wave t = Some (ascii ''song.OGG'')"
    by (simp add: str_defs num_defs scan_defs Let_def)
  then show ?thesis by (cases "parse (ascii ''WAVE:song.OGG'')") simp_all
qed

lemma parse_empty_wave: "\<exists>t. parse [] = Inr t \<and> wave t = None"
proof -
  have "case parse [] of Inl e \<Rightarrow> False | Inr t \<Rightarrow> wave t = None"
    by (simp add: str_defs num_defs scan_defs Let_def)
  then show ?thesis by (cases "parse []") simp_all
qed

lemma lower_OGG: "py_lower (ascii ''OGG'') = ascii ''ogg''"
  by (simp add: py_lower_def lower_char_def ascii_def)

lemma file_ext_song_OGG: "file_ext (Some (ascii ''song.OGG'')) = ascii ''ogg''"
proof -
  have "file_ext (Some ([] @ ascii ''song'' @ [46] @ ascii ''OGG'')) = py_lower (ascii ''OGG'')"
    by (rule file_ext_dot) (simp_all add: ascii_def)
  then show ?thesis by (simp add: lower_OGG) (simp add: ascii_def)
qed

section \<open>The example of the specification\<close>

text \<open>
  C1. Parsing the example text succeeds. The result has exactly the courses \<open>oni\<close> and
  \<open>hard\<close>: \<open>oni\<close> with 8 stars, the branch flag set and the one exam
  \<open>{id: 1, type: "g", red_pass: 80, gold_pass: 100, scope: "m"}\<close>; \<open>hard\<close> with 5 stars,
  the branch flag unset and no \<open>exams\<close> key.
\<close>

theorem example_parse:
  "case parse example_text of
     Inl e \<Rightarrow> False
   | Inr t \<Rightarrow>
       courses t (ascii ''oni'') =
         Some \<lparr>stars = Some 8, branch = True,
               exams = Some [\<lparr>exam_id = 1, exam_type = ascii ''g'', red_pass = 80,
                               gold_pass = 100, scope = ascii ''m''\<rparr>],
               songs = None\<rparr> \<and>
       courses t (ascii ''hard'') =
         Some \<lparr>stars = Some 5, branch = False, exams = None, songs = None\<rparr> \<and>
       dom (courses t) = {ascii ''hard'', ascii ''oni''}"
  by (simp add: example_text_def str_defs num_defs scan_defs Let_def)

section \<open>Numbers that do not parse\<close>

text \<open>
  C2. A \<open>#NEXTSONG\<close> line of at least four fields whose offset or scoreInit field is present,
  not blank and not a number makes the whole parse raise \<open>ValueError\<close>, wherever the line
  stands in the input. An \<open>EXAM1\<close> .. \<open>EXAM4\<close> line of at least three fields under an
  active course, with a red or gold threshold that is not blank and not a number, does not
  abort: the step appends one exam record, and both its \<open>red_pass\<close> and its \<open>gold_pass\<close>
  are 0.
\<close>

theorem numeric_failure_policy:
  "(list_ex bad_nextsong (py_split 10 txt) \<longrightarrow> parse txt = Inl ValueError) \<and>
   (truthy (current_course (snd s)) \<and> bad_exam raw \<longrightarrow>
      (\<exists>x. step s raw = Inr (fst s, (snd s)\<lparr>current_exams := current_exams (snd s) @ [x]\<rparr>) \<and>
           red_pass x = 0 \<and> gold_pass x = 0))"
proof (intro conjI impI)
  assume "list_ex bad_nextsong (py_split 10 txt)"
  then show "parse txt = Inl ValueError" by (rule parse_bad)
next
  assume a: "truthy (current_course (snd s)) \<and> bad_exam raw"
  then obtain k where k: "line_key raw = Some k" "k \<in> set exam_keys"
    by (auto simp: bad_exam_def is_exam_line_def split: option.splits)
  obtain x where x: "exam_data k (exam_parts_of raw) = Inr x"
    using exam_data_ok [OF k(2)] by blast
  have "red_pass x = 0 \<and> gold_pass x = 0"
    using a exam_data_bad [OF x] by (simp add: bad_exam_def)
  moreover have "step s raw = Inr (fst s, (snd s)\<lparr>current_exams := current_exams (snd s) @ [x]\<rparr>)"
    using a k x step_exam_line [of raw s] by (simp add: bad_exam_def)
  ultimately show "\<exists>x. step s raw =
      Inr (fst s, (snd s)\<lparr>current_exams := current_exams (snd s) @ [x]\<rparr>) \<and>
      red_pass x = 0 \<and> gold_pass x = 0"
    by blast
qed

text \<open>
  The theorem at the line \<open>#NEXTSONG a,b,c,wave.ogg,bad,0\<close>, and at the line
  \<open>EXAM1:g,bad,10\<close> in the state that the line \<open>COURSE:DAN\<close> leaves; the parse of both lines
  gives \<open>dan\<close> the one exam with both thresholds 0.
\<close>

theorem numeric_failure_policy_witness:
  "list_ex bad_nextsong (py_split 10 (ascii ''#NEXTSONG a,b,c,wave.ogg,bad,0'')) \<and>
   parse (ascii ''#NEXTSONG a,b,c,wave.ogg,bad,0'') = Inl ValueError \<and>
   bad_exam (ascii ''EXAM1:g,bad,10'') \<and>
   (\<exists>s x. run (Tja_init [], locals_init) [ascii ''COURSE:DAN''] = Inr s \<and>
          truthy (current_course (snd s)) \<and>
          step s (ascii ''EXAM1:g,bad,10'') =
            Inr (fst s, (snd s)\<lparr>current_exams := current_exams (snd s) @ [x]\<rparr>) \<and>
          red_pass x = 0 \<and> gold_pass x = 0) \<and>
   (case parse (ascii ''COURSE:DAN'' @ [10] @ ascii ''EXAM1:g,bad,10'') of
      Inl e \<Rightarrow> False
    | Inr t \<Rightarrow>
        map_option exams (courses t (ascii ''dan'')) =
          Some (Some [\<lparr>exam_id = 1, exam_type = ascii ''g'', red_pass = 0, gold_pass = 0,
                       scope = ascii ''l''\<rparr>]))"
proof -
  let ?w = "ascii ''#NEXTSONG a,b,c,wave.ogg,bad,0''"
  let ?raw = "ascii ''EXAM1:g,bad,10''"
  let ?init = "(Tja_init [], locals_init)"
  have a: "list_ex bad_nextsong (py_split 10 ?w)"
    by (simp add: str_defs num_defs kind_defs Let_def)
  have c: "bad_exam ?raw"
    by (simp add: str_defs num_defs kind_defs exam_keys_def Let_def)
  have "\<not> list_ex bad_nextsong [ascii ''COURSE:DAN'']"
    by (simp add: str_defs kind_defs Let_def)
  then obtain s where s: "run ?init [ascii ''COURSE:DAN''] = Inr s"
    using run_ok [OF active_ok_init] by blast
  have ev: "case run ?init [ascii ''COURSE:DAN''] of Inl e \<Rightarrow> False
            | Inr x \<Rightarrow> truthy (current_course (snd x))"
    by (simp add: str_defs scan_defs Let_def)
  with s have t: "truthy (current_course (snd s))" by simp
  note p = numeric_failure_policy [of ?w s ?raw]
  from p a have e: "parse ?w = Inl ValueError" by blast
  from p t c obtain x where x:
    "step s ?raw = Inr (fst s, (snd s)\<lparr>current_exams := current_exams (snd s) @ [x]\<rparr>)"
    "red_pass x = 0" "gold_pass x = 0"
    by blast
  have f: "case parse (ascii ''COURSE:DAN'' @ [10] @ ascii ''EXAM1:g,bad,10'') of
      Inl e \<Rightarrow> False
    | Inr t \<Rightarrow>
        map_option exams (courses t (ascii ''dan'')) =
          Some (Some [\<lparr>exam_id = 1, exam_type = ascii ''g'', red_pass = 0, gold_pass = 0,
                       scope = ascii ''l''\<rparr>])"
    by (simp add: str_defs num_defs scan_defs Let_def)
  from a e c s t x f show ?thesis by blast
qed

section \<open>Input without a COURSE line\<close>

text \<open>
  C3, as the code has it. For every input text without a \<open>COURSE\<close> line whose parse
  returns a chart, the courses mapping of the chart is empty, and the text without its
  \<open>EXAM\<close> and \<open>#NEXTSONG\<close> lines parses to the same chart (but for the text that the object
  stores): no such line has an effect on the result.
\<close>

theorem no_course_parse:
  assumes "\<not> list_ex is_course_line (py_split 10 txt)"
    and "parse txt = Inr t"
  shows "courses t = Map.empty \<and>
         parse (drop_exam_song_lines txt) = Inr (t\<lparr>tja_text := drop_exam_song_lines txt\<rparr>)"
proof -
  let ?s = "(Tja_init txt, locals_init)"
  let ?x = "drop_exam_song_lines txt"
  let ?s2 = "(Tja_init ?x, locals_init)"
  have inactive: "\<not> truthy (current_course (snd ?s))"
    by (simp add: truthy_def locals_init_def)
  from assms(2) obtain s' where s': "run ?s (py_split 10 txt) = Inr s'"
    and t: "t = commit (fst s') (snd s')"
    by (auto simp: parse_def parse_lines_def split: sum.splits)
  have init2: "current_course (snd ?s2) = current_course (snd ?s)"
    "fst ?s2 = (fst ?s)\<lparr>tja_text := ?x\<rparr>"
    by (simp_all add: Tja_init_def)
  obtain s2' where s2':
    "run ?s2 (filter (\<lambda>raw. \<not> is_exam_line raw \<and> \<not> is_nextsong_line raw) (py_split 10 txt)) = Inr s2'"
    "fst s2' = (fst s')\<lparr>tja_text := ?x\<rparr>"
    "current_course (snd s2') = current_course (snd s')"
    "current_course (snd s') = current_course (snd ?s)"
    using run_inactive_filter [OF assms(1) inactive init2 s'] by blast
  have off: "\<not> truthy (current_course (snd s'))" "\<not> truthy (current_course (snd s2'))"
    using s2'(3,4) inactive by simp_all
  have p1: "t = fst s'" using t off(1) by (simp add: commit_inactive)
  have "courses (fst s') = courses (fst ?s)"
    using run_inactive_courses [OF assms(1) inactive s'] .
  then have p2: "courses (fst s') = Map.empty" by (simp add: Tja_init_def)
  have p3: "parse ?x = Inr ((fst s')\<lparr>tja_text := ?x\<rparr>)"
    using s2'(1,2) off(2) by (simp add: parse_def parse_lines_def run_drop_lines commit_inactive)
  from p1 p2 p3 show ?thesis by simp
qed

text \<open>
  The theorem at a text with a \<open>TITLE\<close> line, an \<open>EXAM1\<close> line and a well-formed \<open>#NEXTSONG\<close>
  line.
\<close>

theorem no_course_parse_witness:
  "\<not> list_ex is_course_line
       (py_split 10 (ascii ''TITLE:Foo'' @ [10] @ ascii ''EXAM1:g,1,2'' @ [10] @
                     ascii ''#NEXTSONG a,b,c,d.ogg'')) \<and>
   drop_exam_song_lines (ascii ''TITLE:Foo'' @ [10] @ ascii ''EXAM1:g,1,2'' @ [10] @
                     ascii ''#NEXTSONG a,b,c,d.ogg'') = ascii ''TITLE:Foo'' \<and>
   (\<exists>t. parse (ascii ''TITLE:Foo'' @ [10] @ ascii ''EXAM1:g,1,2'' @ [10] @
                ascii ''#NEXTSONG a,b,c,d.ogg'') = Inr t \<and>
        title t = Some (ascii ''Foo'') \<and>
        courses t = Map.empty \<and>
        parse (ascii ''TITLE:Foo'') = Inr (t\<lparr>tja_text := ascii ''TITLE:Foo''\<rparr>))"
proof -
  let ?w = "ascii ''TITLE:Foo'' @ [10] @ ascii ''EXAM1:g,1,2'' @ [10] @ ascii ''#NEXTSONG a,b,c,d.ogg''"
  have sp: "py_split 10 ?w = [ascii ''TITLE:Foo'', ascii ''EXAM1:g,1,2'', ascii ''#NEXTSONG a,b,c,d.ogg'']"
    by (simp add: ascii_def)
  have k: "\<not> is_course_line (ascii ''TITLE:Foo'')" "\<not> is_course_line (ascii ''EXAM1:g,1,2'')"
    "\<not> is_course_line (ascii ''#NEXTSONG a,b,c,d.ogg'')"
    "\<not> is_exam_line (ascii ''TITLE:Foo'')" "is_exam_line (ascii ''EXAM1:g,1,2'')"
    "\<not> is_nextsong_line (ascii ''TITLE:Foo'')" "is_nextsong_line (ascii ''#NEXTSONG a,b,c,d.ogg'')"
    by (simp_all add: str_defs kind_defs exam_keys_def Let_def)
  have a: "\<not> list_ex is_course_line (py_split 10 ?w)" using sp k by simp
  have d: "drop_exam_song_lines ?w = ascii ''TITLE:Foo''"
    using sp k by (simp add: drop_exam_song_lines_def)
  have ev: "case parse ?w of Inl e \<Rightarrow> False | Inr t \<Rightarrow> title t = Some (ascii ''Foo'')"
    by (simp add: str_defs num_defs scan_defs Let_def)
  then obtain t where t: "parse ?w = Inr t" "title t = Some (ascii ''Foo'')"
    by (cases "parse ?w") simp_all
  from no_course_parse [OF a t(1)] d a t show ?thesis by auto
qed

text \<open>
  The claim as it was stated fails on the single line \<open>#NEXTSONG a,b,c,wave.ogg,bad,0\<close>:
  the text has no \<open>COURSE\<close> line and its parse raises, so there is no chart, while the text
  without that line parses to the initial chart.
\<close>

theorem no_course_parse_counterexample:
  "\<not> list_ex is_course_line (py_split 10 (ascii ''#NEXTSONG a,b,c,wave.ogg,bad,0'')) \<and>
   parse (ascii ''#NEXTSONG a,b,c,wave.ogg,bad,0'') = Inl ValueError \<and>
   drop_exam_song_lines (ascii ''#NEXTSONG a,b,c,wave.ogg,bad,0'') = [] \<and>
   parse [] = Inr (Tja_init [])"
proof -
  let ?w = "ascii ''#NEXTSONG a,b,c,wave.ogg,bad,0''"
  have sp: "py_split 10 ?w = [?w]" by (simp add: ascii_def)
  have k: "\<not> is_course_line ?w" "is_nextsong_line ?w" "bad_nextsong ?w"
    by (simp_all add: str_defs num_defs kind_defs Let_def)
  have "parse ?w = Inl ValueError" using sp k(3) by (simp add: parse_bad)
  moreover have "drop_exam_song_lines ?w = []" using sp k(2) by (simp add: drop_exam_song_lines_def)
  moreover have "parse [] = Inr (Tja_init [])"
    by (simp add: parse_def parse_lines_def step_blank commit_inactive truthy_def locals_init_def)
  ultimately show ?thesis using sp k(1) by simp
qed

section \<open>The commit at the end of the input\<close>

text \<open>
  C4. Let the last \<open>COURSE\<close> line of an input name a course of the table, and let the parse
  return a chart. Then the chart has a record for that course; if the lines after that
  \<open>COURSE\<close> line add exams, the record's \<open>exams\<close> are exactly the exams they add, in order,
  and if they add songs, the record's \<open>songs\<close> are exactly the songs they add: the commit
  at the end of the input is the commit of a \<open>COURSE\<close> line, and nothing is lost.
\<close>

theorem final_course_commit:
  assumes "py_split 10 txt = pre @ cl # post"
    and "course_of_line cl = Some c"
    and "\<not> list_ex is_course_line post"
    and "parse txt = Inr t"
  shows "\<exists>r. courses t c = Some r \<and>
           (concat (map exams_added post) \<noteq> [] \<longrightarrow>
              exams r = Some (concat (map exams_added post))) \<and>
           (concat (map songs_added post) \<noteq> [] \<longrightarrow>
              songs r = Some (concat (map songs_added post)))"
proof -
  from assms(4) obtain s3 where s3: "run (Tja_init txt, locals_init) (pre @ cl # post) = Inr s3"
    "t = commit (fst s3) (snd s3)"
    by (auto simp: parse_def parse_lines_def assms(1) split: sum.splits)
  then obtain s1 where "run s1 (cl # post) = Inr s3"
    using run_append_Inr by blast
  then obtain s2 where s: "step s1 cl = Inr s2" "run s2 post = Inr s3"
    using run_Cons_Inr by blast
  obtain r2 where r2: "courses (fst s2) c = Some r2"
    using course_block(5) [OF assms(2) s(1) assms(3) s(2)] by blast
  from course_block_commit [OF assms(2) s(1) assms(3) s(2) r2] show ?thesis
    using s3(2) by auto
qed

text \<open>The theorem at \<open>COURSE:DAN\<close>, followed by an \<open>EXAM1\<close> line and a \<open>#NEXTSONG\<close> line.\<close>

theorem final_course_commit_witness:
  "py_split 10 (ascii ''COURSE:DAN'' @ [10] @ ascii ''EXAM1:g,1,2'' @ [10] @
                ascii ''#NEXTSONG a,b,c,d.ogg'') =
     [] @ ascii ''COURSE:DAN'' # [ascii ''EXAM1:g,1,2'', ascii ''#NEXTSONG a,b,c,d.ogg''] \<and>
   course_of_line (ascii ''COURSE:DAN'') = Some (ascii ''dan'') \<and>
   \<not> list_ex is_course_line [ascii ''EXAM1:g,1,2'', ascii ''#NEXTSONG a,b,c,d.ogg''] \<and>
   (\<exists>t r. parse (ascii ''COURSE:DAN'' @ [10] @ ascii ''EXAM1:g,1,2'' @ [10] @
                  ascii ''#NEXTSONG a,b,c,d.ogg'') = Inr t \<and>
          courses t (ascii ''dan'') = Some r \<and>
          exams r = Some [\<lparr>exam_id = 1, exam_type = ascii ''g'', red_pass = 1, gold_pass = 2,
                           scope = ascii ''l''\<rparr>] \<and>
          songs r = Some [\<lparr>song_title = ascii ''a'', song_artist = ascii ''b'',
                           song_genre = ascii ''c'', song_wave = ascii ''d.ogg'',
                           song_offset = PyInt 0, scoreInit = 0\<rparr>])"
proof -
  let ?w = "ascii ''COURSE:DAN'' @ [10] @ ascii ''EXAM1:g,1,2'' @ [10] @ ascii ''#NEXTSONG a,b,c,d.ogg''"
  let ?post = "[ascii ''EXAM1:g,1,2'', ascii ''#NEXTSONG a,b,c,d.ogg'']"
  have sp: "py_split 10 ?w = [] @ ascii ''COURSE:DAN'' # ?post"
    by (simp add: ascii_def)
  have c: "course_of_line (ascii ''COURSE:DAN'') = Some (ascii ''dan'')"
    by (simp add: str_defs kind_defs course_map_def Let_def)
  have n: "\<not> list_ex is_course_line ?post"
    by (simp add: str_defs kind_defs Let_def)
  have nb: "\<not> list_ex bad_nextsong (py_split 10 ?w)"
    unfolding sp by (simp add: str_defs kind_defs Let_def)
  then obtain t where t: "parse ?w = Inr t" using parse_ok by blast
  have e: "concat (map exams_added ?post) =
      [\<lparr>exam_id = 1, exam_type = ascii ''g'', red_pass = 1, gold_pass = 2, scope = ascii ''l''\<rparr>]"
    by (simp add: exams_added_def exam_data_def exam_keys_def str_defs num_defs kind_defs Let_def)
  have g: "concat (map songs_added ?post) =
      [\<lparr>song_title = ascii ''a'', song_artist = ascii ''b'', song_genre = ascii ''c'',
        song_wave = ascii ''d.ogg'', song_offset = PyInt 0, scoreInit = 0\<rparr>]"
    by (simp add: songs_added_def song_info_def str_defs num_defs kind_defs Let_def)
  from final_course_commit [OF sp c n t] obtain r where r: "courses t (ascii ''dan'') = Some r"
    "exams r = Some [\<lparr>exam_id = 1, exam_type = ascii ''g'', red_pass = 1, gold_pass = 2,
                       scope = ascii ''l''\<rparr>]"
    "songs r = Some [\<lparr>song_title = ascii ''a'', song_artist = ascii ''b'',
                       song_genre = ascii ''c'', song_wave = ascii ''d.ogg'',
                       song_offset = PyInt 0, scoreInit = 0\<rparr>]"
    unfolding e g by auto
  from sp c n t r show ?thesis by blast
qed

section \<open>Course names\<close>

text \<open>
  C5. The course a \<open>COURSE\<close> line makes active is a function of its value alone: from every
  state, the step at \<open>COURSE:v\<close> makes active what the table gives for the stripped,
  upper-cased \<open>v\<close>, so an alias has the same course at every occurrence; upper-casing the
  value once more changes nothing. Every course of the table is one of the seven names.
  \<open>Edit\<close> and \<open>Ura\<close> both give \<open>ura\<close>: parsing \<open>COURSE:Edit\<close>, parsing \<open>COURSE:Ura\<close> and
  parsing both lines in one text each give a courses mapping whose only key is \<open>ura\<close>.
\<close>

theorem course_alias_stable:
  "(\<forall>s v. \<exists>s'. step s (ascii ''COURSE:'' @ v) = Inr s' \<and>
            current_course (snd s') = course_map (py_upper (py_strip v))) \<and>
   (\<forall>v. course_map (py_upper (py_upper v)) = course_map (py_upper v)) \<and>
   (\<forall>k c. course_map k = Some c \<longrightarrow>
      c \<in> set [ascii ''easy'', ascii ''normal'', ascii ''hard'', ascii ''oni'', ascii ''ura'',
                ascii ''dan'', ascii ''tower'']) \<and>
   course_map (py_upper (ascii ''Edit'')) = Some (ascii ''ura'') \<and>
   course_map (py_upper (ascii ''Ura'')) = Some (ascii ''ura'') \<and>
   (case parse (ascii ''COURSE:Edit'') of
      Inl e \<Rightarrow> False | Inr t \<Rightarrow> dom (courses t) = {ascii ''ura''}) \<and>
   (case parse (ascii ''COURSE:Ura'') of
      Inl e \<Rightarrow> False | Inr t \<Rightarrow> dom (courses t) = {ascii ''ura''}) \<and>
   (case parse (ascii ''COURSE:Edit'' @ [10] @ ascii ''COURSE:Ura'') of
      Inl e \<Rightarrow> False | Inr t \<Rightarrow> dom (courses t) = {ascii ''ura''})"
proof (intro conjI allI impI)
  fix s :: "Tja \<times> locals" and v
  show "\<exists>s'. step s (ascii ''COURSE:'' @ v) = Inr s' \<and>
            current_course (snd s') = course_map (py_upper (py_strip v))"
    by (simp add: step_course_token on_course_locals py_strip_idem)
next
  fix v
  show "course_map (py_upper (py_upper v)) = course_map (py_upper v)"
    by (simp add: py_upper_idem)
next
  fix k c
  assume "course_map k = Some c"
  then show "c \<in> set [ascii ''easy'', ascii ''normal'', ascii ''hard'', ascii ''oni'', ascii ''ura'',
                ascii ''dan'', ascii ''tower'']"
    by (auto simp: course_map_def split: if_splits)
next
  show "course_map (py_upper (ascii ''Edit'')) = Some (ascii ''ura'')"
    "course_map (py_upper (ascii ''Ura'')) = Some (ascii ''ura'')"
    by (simp_all add: course_map_def str_defs)
  show "case parse (ascii ''COURSE:Edit'') of
      Inl e \<Rightarrow> False | Inr t \<Rightarrow> dom (courses t) = {ascii ''ura''}"
    by (simp add: str_defs scan_defs Let_def)
  show "case parse (ascii ''COURSE:Ura'') of
      Inl e \<Rightarrow> False | Inr t \<Rightarrow> dom (courses t) = {ascii ''ura''}"
    by (simp add: str_defs scan_defs Let_def)
  show "case parse (ascii ''COURSE:Edit'' @ [10] @ ascii ''COURSE:Ura'') of
      Inl e \<Rightarrow> False | Inr t \<Rightarrow> dom (courses t) = {ascii ''ura''}"
    by (simp add: str_defs scan_defs Let_def)
qed

text \<open>The theorem at the line \<open>COURSE: edit\<close>, with blanks around the value.\<close>

theorem course_alias_stable_witness:
  "course_map (ascii ''EDIT'') = Some (ascii ''ura'') \<and>
   ascii ''ura'' \<in> set [ascii ''easy'', ascii ''normal'', ascii ''hard'', ascii ''oni'',
                         ascii ''ura'', ascii ''dan'', ascii ''tower''] \<and>
   (\<exists>s'. step (Tja_init [], locals_init) (ascii ''COURSE:'' @ ascii '' edit '') = Inr s' \<and>
         current_course (snd s') = Some (ascii ''ura''))"
proof -
  have a: "course_map (ascii ''EDIT'') = Some (ascii ''ura'')"
    by (simp add: course_map_def ascii_def)
  have b: "course_map (py_upper (py_strip (ascii '' edit ''))) = Some (ascii ''ura'')"
    by (simp add: course_map_def str_defs)
  from course_alias_stable a have "ascii ''ura'' \<in> set [ascii ''easy'', ascii ''normal'',
      ascii ''hard'', ascii ''oni'', ascii ''ura'', ascii ''dan'', ascii ''tower'']"
    by blast
  moreover from course_alias_stable
  have "\<exists>s'. step (Tja_init [], locals_init) (ascii ''COURSE:'' @ ascii '' edit '') = Inr s' \<and>
         current_course (snd s') = course_map (py_upper (py_strip (ascii '' edit '')))"
    by blast
  ultimately show ?thesis using a b by auto
qed

section \<open>A course declared twice\<close>

text \<open>
  C6. Let a \<open>COURSE\<close> line name a course that already has a record, let the block that
  follows it (up to the next \<open>COURSE\<close> line or the end of the input) hold no \<open>LEVEL\<close> line
  and no branch-start line, and let no later \<open>COURSE\<close> line name that course again. Then
  the pending exams and songs are empty right after that \<open>COURSE\<close> line, and in the chart
  that the parse returns the course has the stars and the branch flag that its record had
  before that line.
\<close>

theorem redeclared_course_keeps_stars_branch:
  assumes "py_split 10 txt = pre @ cl # block @ rest"
    and "run (Tja_init txt, locals_init) pre = Inr s1"
    and "courses (fst s1) c = Some r1"
    and "course_of_line cl = Some c"
    and "\<not> list_ex is_course_line block"
    and "\<not> list_ex is_level_line block"
    and "\<not> list_ex is_branch_line block"
    and "rest = [] \<or> is_course_line (hd rest)"
    and "\<not> list_ex (\<lambda>raw. course_of_line raw = Some c) rest"
    and "parse txt = Inr t"
  shows "(\<exists>s2. step s1 cl = Inr s2 \<and> current_exams (snd s2) = [] \<and> current_songs (snd s2) = []) \<and>
         (\<exists>r. courses t c = Some r \<and> stars r = stars r1 \<and> branch r = branch r1)"
proof -
  from assms(10) obtain s4 where s4: "run (Tja_init txt, locals_init) (pre @ cl # block @ rest) = Inr s4"
    "t = commit (fst s4) (snd s4)"
    by (auto simp: parse_def parse_lines_def assms(1) split: sum.splits)
  from s4(1) assms(2) have "run s1 (cl # block @ rest) = Inr s4"
    by (simp add: run_append)
  then obtain s2 where s2: "step s1 cl = Inr s2" "run s2 (block @ rest) = Inr s4"
    using run_Cons_Inr by blast
  then obtain s3 where s3: "run s2 block = Inr s3" "run s3 rest = Inr s4"
    using run_append_Inr by blast
  have cl: "is_course_line cl" using course_of_line_Some [OF assms(4)] by simp
  then have e: "s2 = on_course s1 (line_val cl)" using s2(1) by (simp add: step_course)
  have l2: "current_exams (snd s2) = []" "current_songs (snd s2) = []"
    by (simp_all add: e on_course_locals)
  have "courses (fst s2) c = courses (commit (fst s1) (snd s1)) c"
    using on_course_keeps [OF assms(3)] by (simp add: e)
  then obtain r2 where r2: "courses (fst s2) c = Some r2" "stars r2 = stars r1" "branch r2 = branch r1"
    using commit_stars_branch [of "fst s1" "snd s1" c] assms(3) by auto
  have "courses (fst s3) = courses (fst s2)"
    using run_block_frame [OF assms(5,6,7) s3(1)] .
  then have r3: "courses (fst s3) c = Some r2" using r2(1) by simp
  have cc3: "current_course (snd s3) = Some c"
    using course_block(1) [OF assms(4) s2(1) assms(5) s3(1)] .
  from run_rest_stars_branch [OF cc3 r3 assms(8,9) s3(2)]
  obtain r where "courses t c = Some r" "stars r = stars r2" "branch r = branch r2"
    using s4(2) by auto
  then show ?thesis using s2(1) l2 r2(2,3) by auto
qed

text \<open>
  The theorem at \<open>COURSE:ONI\<close>, \<open>LEVEL:8\<close>, \<open>BRANCHSTART\<close>, \<open>COURSE:ONI\<close>, \<open>EXAM1:g,1,2\<close>: the
  second block has no \<open>LEVEL\<close> line, and the chart keeps 8 stars and the branch flag.
\<close>

theorem redeclared_course_keeps_stars_branch_witness:
  "py_split 10 (ascii ''COURSE:ONI'' @ [10] @ ascii ''LEVEL:8'' @ [10] @ ascii ''BRANCHSTART'' @ [10] @
                ascii ''COURSE:ONI'' @ [10] @ ascii ''EXAM1:g,1,2'') =
     [ascii ''COURSE:ONI'', ascii ''LEVEL:8'', ascii ''BRANCHSTART''] @
       ascii ''COURSE:ONI'' # [ascii ''EXAM1:g,1,2''] @ [] \<and>
   course_of_line (ascii ''COURSE:ONI'') = Some (ascii ''oni'') \<and>
   \<not> list_ex is_course_line [ascii ''EXAM1:g,1,2''] \<and>
   \<not> list_ex is_level_line [ascii ''EXAM1:g,1,2''] \<and>
   \<not> list_ex is_branch_line [ascii ''EXAM1:g,1,2''] \<and>
   (\<exists>s1 t r.
      run (Tja_init (ascii ''COURSE:ONI'' @ [10] @ ascii ''LEVEL:8'' @ [10] @ ascii ''BRANCHSTART'' @
                     [10] @ ascii ''COURSE:ONI'' @ [10] @ ascii ''EXAM1:g,1,2''), locals_init)
        [ascii ''COURSE:ONI'', ascii ''LEVEL:8'', ascii ''BRANCHSTART''] = Inr s1 \<and>
      courses (fst s1) (ascii ''oni'') =
        Some \<lparr>stars = Some 8, branch = True, exams = None, songs = None\<rparr> \<and>
      parse (ascii ''COURSE:ONI'' @ [10] @ ascii ''LEVEL:8'' @ [10] @ ascii ''BRANCHSTART'' @ [10] @
             ascii ''COURSE:ONI'' @ [10] @ ascii ''EXAM1:g,1,2'') = Inr t \<and>
      courses t (ascii ''oni'') = Some r \<and> stars r = Some 8 \<and> branch r = True)"
proof -
  let ?w = "ascii ''COURSE:ONI'' @ [10] @ ascii ''LEVEL:8'' @ [10] @ ascii ''BRANCHSTART'' @ [10] @
            ascii ''COURSE:ONI'' @ [10] @ ascii ''EXAM1:g,1,2''"
  let ?pre = "[ascii ''COURSE:ONI'', ascii ''LEVEL:8'', ascii ''BRANCHSTART'']"
  let ?r1 = "\<lparr>stars = Some 8, branch = True, exams = None, songs = None\<rparr>"
  have sp: "py_split 10 ?w = ?pre @ ascii ''COURSE:ONI'' # [ascii ''EXAM1:g,1,2''] @ []"
    by (simp add: ascii_def)
  have c: "course_of_line (ascii ''COURSE:ONI'') = Some (ascii ''oni'')"
    by (simp add: str_defs kind_defs course_map_def Let_def)
  have n: "\<not> list_ex is_course_line [ascii ''EXAM1:g,1,2'']"
    "\<not> list_ex is_level_line [ascii ''EXAM1:g,1,2'']"
    "\<not> list_ex is_branch_line [ascii ''EXAM1:g,1,2'']"
    by (simp_all add: str_defs kind_defs Let_def)
  have ev: "case run (Tja_init ?w, locals_init) ?pre of
              Inl e \<Rightarrow> False
            | Inr s1 \<Rightarrow> courses (fst s1) (ascii ''oni'') = Some ?r1"
    by (simp add: str_defs num_defs scan_defs Let_def)
  then obtain s1 where s1: "run (Tja_init ?w, locals_init) ?pre = Inr s1"
    "courses (fst s1) (ascii ''oni'') = Some ?r1"
    by (cases "run (Tja_init ?w, locals_init) ?pre") simp_all
  have "\<not> list_ex bad_nextsong (py_split 10 ?w)"
    unfolding sp by (simp add: str_defs kind_defs Let_def)
  then obtain t where t: "parse ?w = Inr t" using parse_ok by blast
  have r0: "[] = [] \<or> is_course_line (hd [])" by simp
  have r1: "\<not> list_ex (\<lambda>raw. course_of_line raw = Some (ascii ''oni'')) []" by simp
  from redeclared_course_keeps_stars_branch [OF sp s1 c n r0 r1 t]
  obtain r where r: "courses t (ascii ''oni'') = Some r" "stars r = Some 8" "branch r = True"
    by auto
  from sp c n s1 t r show ?thesis by blast
qed

section \<open>A COURSE line that names no course of the table\<close>

text \<open>
  C7. At a \<open>COURSE\<close> line whose value is not in the table, the step first commits the
  pending exams and songs, when not empty, to the record of the course that was active,
  then unsets the active course and empties both pending lists. In the state it leaves,
  every \<open>LEVEL\<close> line, \<open>EXAM\<close> line and branch-start line changes nothing, and over any run
  of lines without a \<open>COURSE\<close> line of the table the records of the courses stay as they
  are and no course is active. Every \<open>COURSE\<close> line, of the table or not, leaves both
  pending lists empty.
\<close>

theorem unrecognized_course_line:
  assumes "is_course_line raw" and "course_of_line raw = None"
  shows "step s raw =
           Inr (commit (fst s) (snd s),
                (snd s)\<lparr>current_course := None, current_exams := [], current_songs := []\<rparr>) \<and>
         (\<forall>c r. current_course (snd s) = Some c \<and> c \<noteq> [] \<and> courses (fst s) c = Some r \<longrightarrow>
            courses (commit (fst s) (snd s)) =
              (courses (fst s))(c \<mapsto>
                 r\<lparr>exams := (if current_exams (snd s) \<noteq> [] then Some (current_exams (snd s))
                              else exams r),
                   songs := (if current_songs (snd s) \<noteq> [] then Some (current_songs (snd s))
                             else songs r)\<rparr>)) \<and>
         (\<forall>s' l. step s raw = Inr s' \<and> (is_level_line l \<or> is_exam_line l \<or> is_branch_line l) \<longrightarrow>
            step s' l = Inr s') \<and>
         (\<forall>s' raws s''. step s raw = Inr s' \<and> \<not> list_ex (\<lambda>l. course_of_line l \<noteq> None) raws \<and>
            run s' raws = Inr s'' \<longrightarrow>
            courses (fst s'') = courses (fst s') \<and> current_course (snd s'') = None) \<and>
         (\<forall>raw2 s2. is_course_line raw2 \<and> step s raw2 = Inr s2 \<longrightarrow>
            current_exams (snd s2) = [] \<and> current_songs (snd s2) = [])"
proof -
  have st: "step s raw =
      Inr (commit (fst s) (snd s),
           (snd s)\<lparr>current_course := None, current_exams := [], current_songs := []\<rparr>)"
    using assms by (simp add: step_course course_of_line_def on_course_def Let_def)
  have cm: "\<forall>c r. current_course (snd s) = Some c \<and> c \<noteq> [] \<and> courses (fst s) c = Some r \<longrightarrow>
            courses (commit (fst s) (snd s)) =
              (courses (fst s))(c \<mapsto>
                 r\<lparr>exams := (if current_exams (snd s) \<noteq> [] then Some (current_exams (snd s))
                              else exams r),
                   songs := (if current_songs (snd s) \<noteq> [] then Some (current_songs (snd s))
                             else songs r)\<rparr>)"
    by (auto simp: commit_def)
  have dr: "\<forall>s' l. step s raw = Inr s' \<and> (is_level_line l \<or> is_exam_line l \<or> is_branch_line l) \<longrightarrow>
            step s' l = Inr s'"
  proof (intro allI impI)
    fix s' l
    assume a: "step s raw = Inr s' \<and> (is_level_line l \<or> is_exam_line l \<or> is_branch_line l)"
    then have "current_course (snd s') = None" using st by auto
    then show "step s' l = Inr s'" using a step_dropped [of s' l] by blast
  qed
  have un: "\<forall>s' raws s''. step s raw = Inr s' \<and> \<not> list_ex (\<lambda>l. course_of_line l \<noteq> None) raws \<and>
            run s' raws = Inr s'' \<longrightarrow>
            courses (fst s'') = courses (fst s') \<and> current_course (snd s'') = None"
  proof (intro allI impI)
    fix s' raws s''
    assume a: "step s raw = Inr s' \<and> \<not> list_ex (\<lambda>l. course_of_line l \<noteq> None) raws \<and>
            run s' raws = Inr s''"
    then have "current_course (snd s') = None" using st by auto
    then show "courses (fst s'') = courses (fst s') \<and> current_course (snd s'') = None"
      using a run_unrecognized [of s' raws s''] by blast
  qed
  have rs: "\<forall>raw2 s2. is_course_line raw2 \<and> step s raw2 = Inr s2 \<longrightarrow>
            current_exams (snd s2) = [] \<and> current_songs (snd s2) = []"
  proof (intro allI impI)
    fix raw2 s2
    assume "is_course_line raw2 \<and> step s raw2 = Inr s2"
    then have "s2 = on_course s (line_val raw2)" using step_course [of raw2 s] by auto
    then show "current_exams (snd s2) = [] \<and> current_songs (snd s2) = []"
      by (simp add: on_course_locals)
  qed
  show ?thesis
    by (intro conjI) (rule st cm dr un rs)+
qed

text \<open>
  The theorem after \<open>COURSE:ONI\<close>, \<open>EXAM1:g,1,2\<close>, at the line \<open>COURSE:Foo\<close>: the exam is
  committed to \<open>oni\<close>, no course is active, and a following \<open>LEVEL:5\<close> is dropped.
\<close>

theorem unrecognized_course_line_witness:
  "is_course_line (ascii ''COURSE:Foo'') \<and>
   course_of_line (ascii ''COURSE:Foo'') = None \<and>
   is_level_line (ascii ''LEVEL:5'') \<and>
   (\<exists>s s' r.
      run (Tja_init [], locals_init) [ascii ''COURSE:ONI'', ascii ''EXAM1:g,1,2''] = Inr s \<and>
      step s (ascii ''COURSE:Foo'') = Inr s' \<and>
      current_course (snd s') = None \<and> current_exams (snd s') = [] \<and>
      current_songs (snd s') = [] \<and>
      courses (fst s') (ascii ''oni'') = Some r \<and>
      exams r = Some [\<lparr>exam_id = 1, exam_type = ascii ''g'', red_pass = 1, gold_pass = 2,
                       scope = ascii ''l''\<rparr>] \<and>
      step s' (ascii ''LEVEL:5'') = Inr s')"
proof -
  let ?init = "(Tja_init [], locals_init)"
  let ?pre = "[ascii ''COURSE:ONI'', ascii ''EXAM1:g,1,2'']"
  let ?raw = "ascii ''COURSE:Foo''"
  let ?e1 = "\<lparr>exam_id = 1, exam_type = ascii ''g'', red_pass = 1, gold_pass = 2, scope = ascii ''l''\<rparr>"
  have a: "is_course_line ?raw"
    by (simp add: str_defs kind_defs Let_def)
  have b: "course_of_line ?raw = None"
    by (simp add: str_defs kind_defs course_map_def Let_def)
  have l: "is_level_line (ascii ''LEVEL:5'')"
    by (simp add: str_defs kind_defs Let_def)
  have "\<not> list_ex bad_nextsong ?pre"
    by (simp add: str_defs kind_defs Let_def)
  then obtain s where s: "run ?init ?pre = Inr s"
    using run_ok [OF active_ok_init] by blast
  define s' where "s' = (commit (fst s) (snd s),
      (snd s)\<lparr>current_course := None, current_exams := [], current_songs := []\<rparr>)"
  note u = unrecognized_course_line [OF a b, of s]
  from u have st: "step s ?raw = Inr s'" unfolding s'_def by blast
  from u l st have dropped: "step s' (ascii ''LEVEL:5'') = Inr s'" by blast
  have loc: "current_course (snd s') = None" "current_exams (snd s') = []"
    "current_songs (snd s') = []"
    by (simp_all add: s'_def)
  have ev: "case run ?init (?pre @ [?raw]) of Inl e \<Rightarrow> False
            | Inr x \<Rightarrow> map_option exams (courses (fst x) (ascii ''oni'')) = Some (Some [?e1])"
    by (simp add: str_defs num_defs scan_defs Let_def)
  have "run ?init (?pre @ [?raw]) = Inr s'"
    using s st run_append_Inr [of ?init ?pre "[?raw]" s'] by simp
  with ev obtain r where r: "courses (fst s') (ascii ''oni'') = Some r" "exams r = Some [?e1]"
    by auto
  from a b l s st loc r dropped show ?thesis by blast
qed

section \<open>The music type of the document\<close>

text \<open>
  C8. For every chart, \<open>to_mongo\<close> sets \<open>music_type\<close> to the lower-cased extension of the
  basename of the \<open>wave\<close> field, without its dot, when there is a non-empty one, and to
  \<open>mp3\<close> otherwise. Here \<open>os.path\<close> is \<open>posixpath\<close>: the \<open>wave\<close> field is a directory part,
  empty or ending in a slash (47), before a basename without a slash, and the extension of the
  basename is the text after its last dot (46), provided that a character other than the dot
  comes before that dot. An unset \<open>wave\<close> field gives \<open>mp3\<close>; a basename with a non-empty
  extension \<open>x\<close> gives \<open>x\<close> in lower case; every other basename gives \<open>mp3\<close>. In particular the
  chart of \<open>WAVE:song.OGG\<close> has the music type \<open>ogg\<close>, and the chart of the empty text, whose
  \<open>wave\<close> field is unset, has the music type \<open>mp3\<close>.
\<close>

theorem music_type_extension:
  "(wave t = None \<longrightarrow> music_type (to_mongo t song_id ns) = ascii ''mp3'') \<and>
   (wave t = Some w \<longrightarrow>
      (\<exists>dir. w = dir @ basename w \<and> (dir = [] \<or> last dir = 47)) \<and> 47 \<notin> set (basename w)) \<and>
   (wave t = Some (dir @ name) \<and> (dir = [] \<or> last dir = 47) \<and> 47 \<notin> set name \<longrightarrow>
      (\<forall>stem x. name = stem @ [46] @ x \<and> 46 \<notin> set x \<and> x \<noteq> [] \<and>
                 list_ex (\<lambda>c. c \<noteq> 46) stem \<longrightarrow>
         music_type (to_mongo t song_id ns) = py_lower x) \<and>
      ((\<nexists>stem x. name = stem @ [46] @ x \<and> 46 \<notin> set x \<and> x \<noteq> [] \<and>
                  list_ex (\<lambda>c. c \<noteq> 46) stem) \<longrightarrow>
         music_type (to_mongo t song_id ns) = ascii ''mp3'')) \<and>
   (\<exists>u. parse (ascii ''WAVE:song.OGG'') = Inr u \<and>
        music_type (to_mongo u song_id ns) = ascii ''ogg'') \<and>
   (\<exists>u. parse [] = Inr u \<and> wave u = None \<and>
        music_type (to_mongo u song_id ns) = ascii ''mp3'')"
proof -
  have none: "wave t = None \<longrightarrow> music_type (to_mongo t song_id ns) = ascii ''mp3''"
    by (simp add: music_type_file_ext file_ext_None)
  have split: "wave t = Some w \<longrightarrow>
      (\<exists>dir. w = dir @ basename w \<and> (dir = [] \<or> last dir = 47)) \<and> 47 \<notin> set (basename w)"
    using basename_split [of w] basename_no_slash [of w] by blast
  have some: "wave t = Some (dir @ name) \<and> (dir = [] \<or> last dir = 47) \<and> 47 \<notin> set name \<longrightarrow>
      (\<forall>stem x. name = stem @ [46] @ x \<and> 46 \<notin> set x \<and> x \<noteq> [] \<and>
                 list_ex (\<lambda>c. c \<noteq> 46) stem \<longrightarrow>
         music_type (to_mongo t song_id ns) = py_lower x) \<and>
      ((\<nexists>stem x. name = stem @ [46] @ x \<and> 46 \<notin> set x \<and> x \<noteq> [] \<and>
                  list_ex (\<lambda>c. c \<noteq> 46) stem) \<longrightarrow>
         music_type (to_mongo t song_id ns) = ascii ''mp3'')"
  proof (intro impI conjI allI)
    fix stem x
    assume a: "wave t = Some (dir @ name) \<and> (dir = [] \<or> last dir = 47) \<and> 47 \<notin> set name"
      and b: "name = stem @ [46] @ x \<and> 46 \<notin> set x \<and> x \<noteq> [] \<and> list_ex (\<lambda>c. c \<noteq> 46) stem"
    have ns: "47 \<notin> set stem" "47 \<notin> set x" using a b by simp_all
    have "file_ext (Some (dir @ stem @ [46] @ x)) = py_lower x"
      using a b ns by (intro file_ext_dot) blast+
    then show "music_type (to_mongo t song_id ns) = py_lower x"
      using a b by (simp add: music_type_file_ext)
  next
    assume a: "wave t = Some (dir @ name) \<and> (dir = [] \<or> last dir = 47) \<and> 47 \<notin> set name"
      and b: "\<nexists>stem x. name = stem @ [46] @ x \<and> 46 \<notin> set x \<and> x \<noteq> [] \<and>
                list_ex (\<lambda>c. c \<noteq> 46) stem"
    have "basename (dir @ name) = name" using a by (intro basename_dir) blast+
    then have "file_ext (Some (dir @ name)) = ascii ''mp3''"
      using b by (intro file_ext_other) (simp only:, blast)
    then show "music_type (to_mongo t song_id ns) = ascii ''mp3''"
      using a by (simp add: music_type_file_ext)
  qed
  have ex1: "\<exists>u. parse (ascii ''WAVE:song.OGG'') = Inr u \<and>
        music_type (to_mongo u song_id ns) = ascii ''ogg''"
    using parse_wave_example by (auto simp: music_type_file_ext file_ext_song_OGG)
  have ex2: "\<exists>u. parse [] = Inr u \<and> wave u = None \<and>
        music_type (to_mongo u song_id ns) = ascii ''mp3''"
    using parse_empty_wave by (auto simp: music_type_file_ext file_ext_None)
  from none split some ex1 ex2 show ?thesis by (intro conjI)
qed

text \<open>
  The theorem at the charts of \<open>WAVE:music/v1.2/Song.Ogg\<close> (a dot in the directory part, the
  extension \<open>Ogg\<close>), of \<open>WAVE:music/.hidden\<close> (only a leading dot: no extension) and of the
  empty text (no \<open>wave\<close> field).
\<close>

theorem music_type_extension_witness:
  "(\<exists>t. parse (ascii ''WAVE:music/v1.2/Song.Ogg'') = Inr t \<and>
        wave t = Some (ascii ''music/v1.2/'' @ ascii ''Song.Ogg'') \<and>
        basename (ascii ''music/v1.2/Song.Ogg'') = ascii ''Song.Ogg'' \<and>
        music_type (to_mongo t (ascii ''7'') 0) = ascii ''ogg'') \<and>
   (\<exists>t. parse (ascii ''WAVE:music/.hidden'') = Inr t \<and>
        wave t = Some (ascii ''music/'' @ ascii ''.hidden'') \<and>
        music_type (to_mongo t (ascii ''7'') 0) = ascii ''mp3'') \<and>
   (\<exists>t. parse [] = Inr t \<and> wave t = None \<and>
        music_type (to_mongo t (ascii ''7'') 0) = ascii ''mp3'')"
proof -
  let ?d = "ascii ''music/v1.2/''" and ?n = "ascii ''Song.Ogg''"
  have "case parse (ascii ''WAVE:music/v1.2/Song.Ogg'') of Inl e \<Rightarrow> False
        | Inr t \<Rightarrow> wave t = Some (?d @ ?n)"
    by (simp add: str_defs num_defs scan_defs Let_def)
  then obtain t where t: "parse (ascii ''WAVE:music/v1.2/Song.Ogg'') = Inr t"
      "wave t = Some (?d @ ?n)"
    by (cases "parse (ascii ''WAVE:music/v1.2/Song.Ogg'')") simp_all
  have d: "?d = [] \<or> last ?d = 47" "47 \<notin> set ?n" by (simp_all add: ascii_def)
  have n: "?n = ascii ''Song'' @ [46] @ ascii ''Ogg'' \<and> 46 \<notin> set (ascii ''Ogg'') \<and>
           ascii ''Ogg'' \<noteq> [] \<and> list_ex (\<lambda>c. c \<noteq> 46) (ascii ''Song'')"
    by (simp add: ascii_def)
  have low: "py_lower (ascii ''Ogg'') = ascii ''ogg''"
    by (simp add: py_lower_def lower_char_def ascii_def)
  have m: "music_type (to_mongo t (ascii ''7'') 0) = py_lower (ascii ''Ogg'')"
    using music_type_extension [of t "ascii ''7''" 0 "?d @ ?n" ?d ?n] t(2) d n by blast
  have bn: "basename (ascii ''music/v1.2/Song.Ogg'') = ?n"
    by (simp add: basename_def rfind_def ascii_def)
  have first: "\<exists>t. parse (ascii ''WAVE:music/v1.2/Song.Ogg'') = Inr t \<and>
        wave t = Some (?d @ ?n) \<and> basename (ascii ''music/v1.2/Song.Ogg'') = ?n \<and>
        music_type (to_mongo t (ascii ''7'') 0) = ascii ''ogg''"
    using t m low bn by auto
  let ?e = "ascii ''music/''" and ?h = "ascii ''.hidden''"
  have "case parse (ascii ''WAVE:music/.hidden'') of Inl e \<Rightarrow> False
        | Inr t \<Rightarrow> wave t = Some (?e @ ?h)"
    by (simp add: str_defs num_defs scan_defs Let_def)
  then obtain u where u: "parse (ascii ''WAVE:music/.hidden'') = Inr u" "wave u = Some (?e @ ?h)"
    by (cases "parse (ascii ''WAVE:music/.hidden'')") simp_all
  have e: "?e = [] \<or> last ?e = 47" "47 \<notin> set ?h" by (simp_all add: ascii_def)
  have h: "\<nexists>stem x. ?h = stem @ [46] @ x \<and> 46 \<notin> set x \<and> x \<noteq> [] \<and>
             list_ex (\<lambda>c. c \<noteq> 46) stem"
  proof
    assume "\<exists>stem x. ?h = stem @ [46] @ x \<and> 46 \<notin> set x \<and> x \<noteq> [] \<and>
             list_ex (\<lambda>c. c \<noteq> 46) stem"
    then obtain stem x where sx: "?h = stem @ [46] @ x" "list_ex (\<lambda>c. c \<noteq> 46) stem"
      by (elim exE conjE)
    from sx(2) obtain c rest where stem: "stem = c # rest" by (cases stem) simp_all
    have "ascii ''hidden'' = rest @ 46 # x" using sx(1) stem by (simp add: ascii_def)
    then have "46 \<in> set (ascii ''hidden'')" by simp
    then show False by (simp add: ascii_def)
  qed
  have second: "\<exists>t. parse (ascii ''WAVE:music/.hidden'') = Inr t \<and>
        wave t = Some (?e @ ?h) \<and> music_type (to_mongo t (ascii ''7'') 0) = ascii ''mp3''"
    using music_type_extension [of u "ascii ''7''" 0 "?e @ ?h" ?e ?h] u e h by blast
  obtain v where v: "parse [] = Inr v" "wave v = None"
    using music_type_extension [of t "ascii ''7''" 0] by blast
  have third: "\<exists>t. parse [] = Inr t \<and> wave t = None \<and>
        music_type (to_mongo t (ascii ''7'') 0) = ascii ''mp3''"
    using music_type_extension [of v "ascii ''7''" 0] v by blast
  from first second third show ?thesis by (intro conjI)
qed

section \<open>The commit after a course is taken up again\<close>

text \<open>
  C9. Let a \<open>COURSE\<close> line name a course that already has a record, and let \<open>r2\<close> be that
  record right after the line. After the lines of the new block, the commit (at the end of
  the input, or at the next \<open>COURSE\<close> line, which leaves the same record) sets the exams of
  the course to exactly the exams the new block adds when it adds any, whatever the list
  was, and leaves the list of \<open>r2\<close> in place when the block adds none; the same holds for
  the songs.
\<close>

theorem reactivated_course_commit:
  assumes "courses (fst s1) c \<noteq> None"
    and "course_of_line cl = Some c"
    and "step s1 cl = Inr s2"
    and "courses (fst s2) c = Some r2"
    and "\<not> list_ex is_course_line block"
    and "run s2 block = Inr s3"
  shows "(\<exists>r. courses (commit (fst s3) (snd s3)) c = Some r \<and>
            exams r = (if concat (map exams_added block) = [] then exams r2
                       else Some (concat (map exams_added block))) \<and>
            songs r = (if concat (map songs_added block) = [] then songs r2
                       else Some (concat (map songs_added block)))) \<and>
         (\<forall>nl s4. is_course_line nl \<and> step s3 nl = Inr s4 \<longrightarrow>
            courses (fst s4) c = courses (commit (fst s3) (snd s3)) c)"
proof
  show "\<exists>r. courses (commit (fst s3) (snd s3)) c = Some r \<and>
            exams r = (if concat (map exams_added block) = [] then exams r2
                       else Some (concat (map exams_added block))) \<and>
            songs r = (if concat (map songs_added block) = [] then songs r2
                       else Some (concat (map songs_added block)))"
    using course_block_commit [OF assms(2,3,5,6,4)] .
  obtain r3 where r3: "courses (fst s3) c = Some r3"
    using course_block(5) [OF assms(2,3,5,6)] by blast
  show "\<forall>nl s4. is_course_line nl \<and> step s3 nl = Inr s4 \<longrightarrow>
            courses (fst s4) c = courses (commit (fst s3) (snd s3)) c"
  proof (intro allI impI)
    fix nl s4
    assume a: "is_course_line nl \<and> step s3 nl = Inr s4"
    then have "s4 = on_course s3 (line_val nl)" using step_course [of nl s3] by auto
    then show "courses (fst s4) c = courses (commit (fst s3) (snd s3)) c"
      using on_course_keeps [OF r3, of "line_val nl"] by simp
  qed
qed

text \<open>
  The theorem at \<open>COURSE:ONI\<close>, \<open>EXAM1:g,1,2\<close>, \<open>COURSE:ONI\<close>, \<open>EXAM2:ok,3,4\<close>: the first exam
  is committed at the second \<open>COURSE\<close> line, and the final commit replaces it by the second.
\<close>

theorem reactivated_course_commit_witness:
  "course_of_line (ascii ''COURSE:ONI'') = Some (ascii ''oni'') \<and>
   \<not> list_ex is_course_line [ascii ''EXAM2:ok,3,4''] \<and>
   (\<exists>s1 s2 s3 r2 r.
      run (Tja_init [], locals_init) [ascii ''COURSE:ONI'', ascii ''EXAM1:g,1,2''] = Inr s1 \<and>
      courses (fst s1) (ascii ''oni'') \<noteq> None \<and>
      step s1 (ascii ''COURSE:ONI'') = Inr s2 \<and>
      courses (fst s2) (ascii ''oni'') = Some r2 \<and>
      exams r2 = Some [\<lparr>exam_id = 1, exam_type = ascii ''g'', red_pass = 1, gold_pass = 2,
                        scope = ascii ''l''\<rparr>] \<and>
      run s2 [ascii ''EXAM2:ok,3,4''] = Inr s3 \<and>
      courses (commit (fst s3) (snd s3)) (ascii ''oni'') = Some r \<and>
      exams r = Some [\<lparr>exam_id = 2, exam_type = ascii ''ok'', red_pass = 3, gold_pass = 4,
                       scope = ascii ''l''\<rparr>])"
proof -
  let ?init = "(Tja_init [], locals_init)"
  let ?cl = "ascii ''COURSE:ONI''"
  let ?pre = "[?cl, ascii ''EXAM1:g,1,2'']"
  let ?b = "[ascii ''EXAM2:ok,3,4'']"
  let ?e1 = "\<lparr>exam_id = 1, exam_type = ascii ''g'', red_pass = 1, gold_pass = 2, scope = ascii ''l''\<rparr>"
  let ?e2 = "\<lparr>exam_id = 2, exam_type = ascii ''ok'', red_pass = 3, gold_pass = 4, scope = ascii ''l''\<rparr>"
  have c: "course_of_line ?cl = Some (ascii ''oni'')"
    by (simp add: str_defs kind_defs course_map_def Let_def)
  have n: "\<not> list_ex is_course_line ?b"
    by (simp add: str_defs kind_defs Let_def)
  have "\<not> list_ex bad_nextsong (?pre @ ?cl # ?b)"
    by (simp add: str_defs kind_defs Let_def)
  then obtain s3 where "run ?init (?pre @ ?cl # ?b) = Inr s3"
    using run_ok [OF active_ok_init] by blast
  then obtain s1 s2 where s: "run ?init ?pre = Inr s1" "step s1 ?cl = Inr s2" "run s2 ?b = Inr s3"
    using run_append_Inr [of ?init ?pre "?cl # ?b" s3] run_Cons_Inr [of _ ?cl ?b s3] by blast
  have ev1: "case run ?init ?pre of Inl e \<Rightarrow> False
             | Inr s \<Rightarrow> courses (fst s) (ascii ''oni'') \<noteq> None"
    by (simp add: str_defs num_defs scan_defs Let_def)
  have seen: "courses (fst s1) (ascii ''oni'') \<noteq> None" using ev1 s(1) by simp
  have ev2: "case run ?init (?pre @ [?cl]) of Inl e \<Rightarrow> False
             | Inr s \<Rightarrow> map_option exams (courses (fst s) (ascii ''oni'')) = Some (Some [?e1])"
    by (simp add: str_defs num_defs scan_defs Let_def)
  have "run ?init (?pre @ [?cl]) = Inr s2"
    using s(1,2) run_append_Inr [of ?init ?pre "[?cl]" s2] by simp
  with ev2 obtain r2 where r2: "courses (fst s2) (ascii ''oni'') = Some r2" "exams r2 = Some [?e1]"
    by auto
  have e: "concat (map exams_added ?b) = [?e2]"
    by (simp add: exams_added_def exam_data_def exam_keys_def str_defs num_defs kind_defs Let_def)
  from reactivated_course_commit [OF seen c s(2) r2(1) n s(3)]
  obtain r where r: "courses (commit (fst s3) (snd s3)) (ascii ''oni'') = Some r"
    "exams r = Some [?e2]"
    unfolding e by auto
  from c n s seen r2 r show ?thesis by blast
qed

section \<open>Branch detection\<close>

text \<open>
  C10. A step changes the branch flag of a course only when that course is active and the
  stripped line has no colon and starts with exactly \<open>BRANCHSTART\<close> or \<open>#BRANCHSTART\<close>;
  the flag is then true. Under an active course every such line sets the flag. The
  match is case-sensitive: \<open>branchstart\<close> and \<open>#BranchStart\<close> are no branch lines, nor is
  \<open>#BRANCHSTART:1\<close>, which has a colon; whereas \<open>#nextsong\<close>, \<open>#start\<close> and \<open>#End\<close> are
  taken as \<open>#NEXTSONG\<close>, \<open>#START\<close> and \<open>#END\<close>.
\<close>

theorem branch_detection:
  "(\<forall>s c r raw s' r'.
      courses (fst s) c = Some r \<and> step s raw = Inr s' \<and> courses (fst s') c = Some r' \<and>
      branch r' \<noteq> branch r \<longrightarrow>
      current_course (snd s) = Some c \<and> branch r' \<and> 58 \<notin> set (py_strip raw) \<and>
      (startswith (py_strip raw) (ascii ''BRANCHSTART'') \<or>
       startswith (py_strip raw) (ascii ''#BRANCHSTART''))) \<and>
   (\<forall>s c r raw.
      current_course (snd s) = Some c \<and> c \<noteq> [] \<and> courses (fst s) c = Some r \<and>
      58 \<notin> set (py_strip raw) \<and>
      (startswith (py_strip raw) (ascii ''BRANCHSTART'') \<or>
       startswith (py_strip raw) (ascii ''#BRANCHSTART'')) \<longrightarrow>
      step s raw = Inr ((fst s)\<lparr>courses := (courses (fst s))(c \<mapsto> r\<lparr>branch := True\<rparr>)\<rparr>, snd s)) \<and>
   \<not> is_branch_line (ascii ''branchstart'') \<and>
   \<not> is_branch_line (ascii ''#BranchStart'') \<and>
   \<not> is_branch_line (ascii ''#BRANCHSTART:1'') \<and>
   is_nextsong_line (ascii ''#nextsong a,b,c,d'') \<and>
   is_start_line (ascii ''#start'') \<and>
   is_end_line (ascii ''#End'')"
proof (intro conjI allI impI)
  fix s :: "Tja \<times> locals" and c r raw s' r'
  assume a: "courses (fst s) c = Some r \<and> step s raw = Inr s' \<and> courses (fst s') c = Some r' \<and>
      branch r' \<noteq> branch r"
  then have b: "is_branch_line raw \<and> current_course (snd s) = Some c"
    using step_branch_only [of s c r raw s' r'] by blast
  then show "current_course (snd s) = Some c" by simp
  from b show "58 \<notin> set (py_strip raw)" by (simp add: is_branch_line_def)
  from b show "startswith (py_strip raw) (ascii ''BRANCHSTART'') \<or>
       startswith (py_strip raw) (ascii ''#BRANCHSTART'')"
    by (simp add: is_branch_line_def)
  have "c \<noteq> []"
  proof
    assume "c = []"
    then have "step s raw = Inr s" using b by (simp add: step_branch on_other_def truthy_def)
    then show False using a by auto
  qed
  then have "step s raw = Inr ((fst s)\<lparr>courses := (courses (fst s))(c \<mapsto> r\<lparr>branch := True\<rparr>)\<rparr>, snd s)"
    using step_branch_sets [of s c r raw] a b by blast
  then show "branch r'" using a by auto
next
  fix s :: "Tja \<times> locals" and c r raw
  assume "current_course (snd s) = Some c \<and> c \<noteq> [] \<and> courses (fst s) c = Some r \<and>
      58 \<notin> set (py_strip raw) \<and>
      (startswith (py_strip raw) (ascii ''BRANCHSTART'') \<or>
       startswith (py_strip raw) (ascii ''#BRANCHSTART''))"
  then show "step s raw = Inr ((fst s)\<lparr>courses := (courses (fst s))(c \<mapsto> r\<lparr>branch := True\<rparr>)\<rparr>, snd s)"
    using step_branch_sets [of s c r raw] by (simp add: is_branch_line_def)
next
  show "\<not> is_branch_line (ascii ''branchstart'')" "\<not> is_branch_line (ascii ''#BranchStart'')"
    "\<not> is_branch_line (ascii ''#BRANCHSTART:1'')"
    by (simp_all add: str_defs kind_defs Let_def)
  show "is_nextsong_line (ascii ''#nextsong a,b,c,d'')" "is_start_line (ascii ''#start'')"
    "is_end_line (ascii ''#End'')"
    by (simp_all add: str_defs kind_defs Let_def)
qed

text \<open>
  The theorem after \<open>COURSE:ONI\<close>: \<open>#BRANCHSTART p,1,2\<close> sets the flag of \<open>oni\<close>, and
  \<open>#branchstart p,1,2\<close> and \<open>#BRANCHSTART:p,1,2\<close> leave the state as it is.
\<close>

theorem branch_detection_witness:
  "58 \<notin> set (py_strip (ascii ''#BRANCHSTART p,1,2'')) \<and>
   startswith (py_strip (ascii ''#BRANCHSTART p,1,2'')) (ascii ''#BRANCHSTART'') \<and>
   (\<exists>s s' r r'.
      run (Tja_init [], locals_init) [ascii ''COURSE:ONI''] = Inr s \<and>
      current_course (snd s) = Some (ascii ''oni'') \<and>
      courses (fst s) (ascii ''oni'') = Some r \<and>
      step s (ascii ''#BRANCHSTART p,1,2'') = Inr s' \<and>
      courses (fst s') (ascii ''oni'') = Some r' \<and>
      \<not> branch r \<and> branch r' \<and>
      step s (ascii ''#branchstart p,1,2'') = Inr s \<and>
      step s (ascii ''#BRANCHSTART:p,1,2'') = Inr s)"
proof -
  let ?init = "(Tja_init [], locals_init)"
  let ?raw = "ascii ''#BRANCHSTART p,1,2''"
  let ?r0 = "\<lparr>stars = None, branch = False, exams = None, songs = None\<rparr>"
  have k: "58 \<notin> set (py_strip ?raw)" "startswith (py_strip ?raw) (ascii ''#BRANCHSTART'')"
    by (simp_all add: str_defs)
  have "\<not> list_ex bad_nextsong [ascii ''COURSE:ONI'']"
    by (simp add: str_defs kind_defs Let_def)
  then obtain s where s: "run ?init [ascii ''COURSE:ONI''] = Inr s"
    using run_ok [OF active_ok_init] by blast
  have ev: "case run ?init [ascii ''COURSE:ONI''] of Inl e \<Rightarrow> False
            | Inr x \<Rightarrow> current_course (snd x) = Some (ascii ''oni'') \<and>
                       courses (fst x) (ascii ''oni'') = Some ?r0"
    by (simp add: str_defs scan_defs Let_def)
  with s have cc: "current_course (snd s) = Some (ascii ''oni'')"
    and r: "courses (fst s) (ascii ''oni'') = Some ?r0"
    by simp_all
  have ne: "ascii ''oni'' \<noteq> []" by (simp add: ascii_def)
  define s' where "s' = ((fst s)\<lparr>courses := (courses (fst s))(ascii ''oni'' \<mapsto> ?r0\<lparr>branch := True\<rparr>)\<rparr>, snd s)"
  from branch_detection cc ne r k have st: "step s ?raw = Inr s'"
    unfolding s'_def by blast
  have r': "courses (fst s') (ascii ''oni'') = Some (?r0\<lparr>branch := True\<rparr>)"
    by (simp add: s'_def)
  have lower: "step s (ascii ''#branchstart p,1,2'') = Inr s"
    by (simp add: step_def on_other_def str_defs Let_def)
  have colon: "step s (ascii ''#BRANCHSTART:p,1,2'') = Inr s"
    by (simp add: step_def on_key_value_def exam_keys_def str_defs Let_def)
  have b: "\<not> branch ?r0" "branch (?r0\<lparr>branch := True\<rparr>)" by simp_all
  from k s cc r st r' b lower colon show ?thesis by blast
qed

end
